theory Spec2Isabelle
  imports Complex_Main "HOL-Library.Sublist"
begin

section \<open>Telegram media extractor bot: a shallow embedding\<close>

text \<open>
  The development follows the Python sources \<^verbatim>\<open>config.py\<close>, \<^verbatim>\<open>utils.py\<close>,
  \<^verbatim>\<open>media_extractor.py\<close> and \<^verbatim>\<open>bot.py\<close>. Python functions keep their names.
  Exceptions are values of type \<open>error\<close>, a function that can raise returns
  \<open>error + 'a\<close> (\<open>Inl\<close> is the raised exception). Everything the program obtains from
  outside (HTTP responses, the video engine, the HTML parser, the standard library's URL
  functions, temporary file names) is a field of the record \<open>env\<close>, so every theorem
  holds for all behaviours of these collaborators. What the program does to the outside
  (network requests, temporary files) is recorded in the record \<open>world\<close>, passed through
  the functions and returned.
\<close>

subsection \<open>Python strings and bytes\<close>

text \<open>
  A \<open>str\<close> and a \<open>bytes\<close> object are both lists of 8-bit characters; for \<open>str\<close> the
  characters are the code points below 256 (HTTP headers are decoded as Latin-1).
  \<open>s.startswith(p)\<close> is \<open>prefix p s\<close>, \<open>s.endswith(p)\<close> is \<open>suffix p s\<close> and
  \<open>p in s\<close> on strings is \<open>sublist p s\<close>.
\<close>

text \<open>
  \<open>bytes.lower()\<close>: only the ASCII letters \<open>A\<close> to \<open>Z\<close> (codes 65 to 90) change;
  the lower-case letter is 32 further on.
\<close>

definition bytes_lower_char :: "char \<Rightarrow> char" where
  "bytes_lower_char c =
     (let n = (of_char c :: nat) in if 65 \<le> n \<and> n \<le> 90 then char_of (n + 32) else c)"

definition bytes_lower :: "string \<Rightarrow> string" where
  "bytes_lower b = map bytes_lower_char b"

text \<open>
  \<open>str.lower()\<close> on code points below 256: the ASCII letters, and the Latin-1 capital
  letters (codes 192 to 222, without the multiplication sign 215).
\<close>

definition lower_char :: "char \<Rightarrow> char" where
  "lower_char c =
     (let n = (of_char c :: nat)
      in if (65 \<le> n \<and> n \<le> 90) \<or> (192 \<le> n \<and> n \<le> 222 \<and> n \<noteq> 215) then char_of (n + 32)
         else c)"

definition lower :: "string \<Rightarrow> string" where
  "lower s = map lower_char s"

text \<open>
  The characters below 256 for which \<open>str.isspace()\<close> holds; \<open>str.strip()\<close> removes
  them at both ends.
\<close>

definition is_space :: "char \<Rightarrow> bool" where
  "is_space c = (c \<in> set [CHR '' '', CHR 0x09, CHR 0x0A, CHR 0x0B, CHR 0x0C, CHR 0x0D,
     CHR 0x1C, CHR 0x1D, CHR 0x1E, CHR 0x1F, CHR 0x85, CHR 0xA0])"

definition strip :: "string \<Rightarrow> string" where
  "strip s = rev (dropWhile is_space (rev (dropWhile is_space s)))"

text \<open>
  \<open>int(s)\<close> for a string: surrounding whitespace, an optional sign, decimal digits with
  single underscores between digits. \<open>None\<close> stands for the \<open>ValueError\<close> of an
  invalid literal. The whitespace that \<open>int\<close> skips is not that of \<open>str.strip()\<close>: the
  interpreter replaces the whitespace outside ASCII by a blank and then skips the six
  whitespace characters of C, so the separators \<open>0x1C\<close> to \<open>0x1F\<close> are left in place and
  make the literal invalid. (Digits outside ASCII and the interpreter's limit on the number
  of digits are outside this model.)
\<close>

definition is_int_space :: "char \<Rightarrow> bool" where
  "is_int_space c = (c \<in> set [CHR '' '', CHR 0x09, CHR 0x0A, CHR 0x0B, CHR 0x0C, CHR 0x0D,
     CHR 0x85, CHR 0xA0])"

definition int_strip :: "string \<Rightarrow> string" where
  "int_strip s = rev (dropWhile is_int_space (rev (dropWhile is_int_space s)))"

definition digit_val :: "char \<Rightarrow> nat option" where
  "digit_val c = map_of (zip ''0123456789'' [0, 1, 2, 3, 4, 5, 6, 7, 8, 9]) c"

fun parse_digits :: "nat \<Rightarrow> string \<Rightarrow> nat option" where
  "parse_digits acc [] = Some acc"
| "parse_digits acc [c] =
     (case digit_val c of None \<Rightarrow> None | Some v \<Rightarrow> Some (10 * acc + v))"
| "parse_digits acc (c # d # ds) =
     (if c = CHR ''_'' then
        (case digit_val d of None \<Rightarrow> None | Some v \<Rightarrow> parse_digits (10 * acc + v) ds)
      else
        (case digit_val c of None \<Rightarrow> None | Some v \<Rightarrow> parse_digits (10 * acc + v) (d # ds)))"

definition parse_nat :: "string \<Rightarrow> nat option" where
  "parse_nat s =
     (case s of
        [] \<Rightarrow> None
      | c # cs \<Rightarrow> (case digit_val c of None \<Rightarrow> None | Some v \<Rightarrow> parse_digits v cs))"

definition py_int :: "string \<Rightarrow> int option" where
  "py_int s =
     (case int_strip s of
        [] \<Rightarrow> None
      | c # cs \<Rightarrow>
          if c = CHR ''-'' then map_option (\<lambda>n. - int n) (parse_nat cs)
          else if c = CHR ''+'' then map_option int (parse_nat cs)
          else map_option int (parse_nat (c # cs)))"

subsection \<open>Exceptions\<close>

text \<open>
  The program raises \<open>ValueError\<close> with four different messages; the other exceptions
  come from the libraries. \<open>File_too_large\<close> carries the declared size.
\<close>

datatype message =
    Invalid_URL_format
  | No_supported_media_found
  | File_too_large int
  | File_too_large_during_download
  | Downloaded_content_is_HTML
  | Invalid_literal
  | Raised_by_library

datatype error =
    ValueError message
  | HTTPError nat
  | RequestException
  | OSError
  | KeyError
  | TypeError
  | AttributeError
  | RuntimeError
  | DownloadError
  | TelegramError

subsection \<open>config.py\<close>

definition MAX_PHOTO_SIZE :: nat where
  "MAX_PHOTO_SIZE = 200 * 1024 * 1024"

definition MAX_VIDEO_SIZE :: nat where
  "MAX_VIDEO_SIZE = 3 * 1024 * 1024 * 1024"

definition MAX_DOCUMENT_SIZE :: nat where
  "MAX_DOCUMENT_SIZE = 3 * 1024 * 1024 * 1024"

definition AUTO_DELETE_AFTER_HOURS :: real where
  "AUTO_DELETE_AFTER_HOURS = 1"

definition SUPPORTED_IMAGE_FORMATS :: "string set" where
  "SUPPORTED_IMAGE_FORMATS = {''.jpg'', ''.jpeg'', ''.png'', ''.gif'', ''.webp'', ''.bmp''}"

definition SUPPORTED_VIDEO_FORMATS :: "string set" where
  "SUPPORTED_VIDEO_FORMATS = {''.mp4'', ''.avi'', ''.mov'', ''.mkv'', ''.webm'', ''.m4v''}"

subsection \<open>The collaborators\<close>

text \<open>
  \<open>pathlib.Path(p).name\<close> and \<open>.suffix\<close> for POSIX paths: the path is split at
  \<open>/\<close>, empty components and \<open>.\<close> components are dropped, the name is the last
  component left; the suffix starts at the last dot of the name, unless that dot is the
  first or the last character of the name.
\<close>

fun split_sep :: "char \<Rightarrow> string \<Rightarrow> string list" where
  "split_sep sep [] = [[]]"
| "split_sep sep (c # cs) =
     (if c = sep then [] # split_sep sep cs
      else (case split_sep sep cs of [] \<Rightarrow> [[c]] | p # ps \<Rightarrow> (c # p) # ps))"

definition path_parts :: "string \<Rightarrow> string list" where
  "path_parts p = filter (\<lambda>x. x \<noteq> [] \<and> x \<noteq> ''.'') (split_sep (CHR ''/'') p)"

definition path_name :: "string \<Rightarrow> string" where
  "path_name p = (case path_parts p of [] \<Rightarrow> [] | x # xs \<Rightarrow> last (x # xs))"

definition path_suffix :: "string \<Rightarrow> string" where
  "path_suffix p =
     (let name = path_name p;
          ext = CHR ''.'' # rev (takeWhile (\<lambda>c. c \<noteq> CHR ''.'') (rev name))
      in if CHR ''.'' \<in> set name \<and> length ext < length name \<and> 1 < length ext then ext else [])"

text \<open>The fields of \<open>urlparse(url)\<close> that the program reads.\<close>

record url_parts =
  scheme :: string
  netloc :: string
  path :: string

text \<open>
  An HTTP response as \<open>requests\<close> hands it over: the status, the two headers the program
  reads (\<open>None\<close> when the header is missing), the body as the chunks that
  \<open>iter_content\<close> yields, and whether the connection breaks after the last of them.
\<close>

record response =
  status_code :: nat
  content_length_hdr :: "string option"
  content_type_hdr :: "string option"
  chunks :: "string list"
  stream_broken :: bool

text \<open>
  A parsed HTML document, as the queries of the scraper see it: \<open>script.string\<close> of every
  \<open>script\<close> element; the \<open>img\<close> elements that have a \<open>src\<close>; the \<open>data-src\<close> of the
  \<open>img\<close> elements that have one; the \<open>src\<close> of \<open>video\<close> and of \<open>source\<close> elements;
  the \<open>href\<close> of the anchors; and the first \<open>meta\<close> element with property \<open>og:image\<close>
  (\<open>None\<close> when there is none, otherwise its \<open>content\<close> attribute, if any).
\<close>

record img_tag =
  img_src :: string
  img_width :: "string option"
  img_height :: "string option"

record soup =
  soup_scripts :: "string option list"
  soup_imgs :: "img_tag list"
  soup_lazy_imgs :: "string list"
  soup_videos :: "string list"
  soup_sources :: "string list"
  soup_anchors :: "string list"
  soup_og_image :: "string option option"

text \<open>
  A rendition (a dictionary of yt-dlp's \<open>formats\<close> list). For the two sizes \<open>None\<close>
  stands for a missing key and for the value \<open>None\<close> alike: the program treats both as
  false. For \<open>quality\<close> the three cases differ: a missing key reads as \<open>0\<close>, and
  comparing the value \<open>None\<close> raises \<open>TypeError\<close>.
\<close>

datatype quality_field = Q_absent | Q_None | Q_num real

record ydl_format =
  fmt_format_id :: string
  fmt_filesize :: "real option"
  fmt_filesize_approx :: "real option"
  fmt_quality :: quality_field

text \<open>
  The key \<open>title\<close> of a dictionary: missing, there with the value \<open>None\<close>, or there with
  a string.
\<close>

datatype title_field = T_absent | T_None | T_str string

record video_info =
  info_formats :: "ydl_format list"
  info_title :: title_field

datatype ydl_info = Playlist "video_info option list" | Single video_info

text \<open>
  Everything the program asks of the outside. \<open>named_temporary_file n\<close> is the path that
  \<open>tempfile\<close> picks for the artifact created when \<open>n\<close> exist already, without its
  suffix; \<open>ydl_download\<close> gives the files (name and content) that the engine leaves in the
  download directory, in the order of \<open>os.listdir\<close>; \<open>set_iteration\<close> is the order in
  which Python iterates over a set, which the language leaves open.
\<close>

record env =
  urlparse :: "string \<Rightarrow> error + url_parts"
  unquote :: "string \<Rightarrow> string"
  urljoin :: "string \<Rightarrow> string \<Rightarrow> error + string"
  md5_hexdigest :: "string \<Rightarrow> string"
  guess_extension :: "string \<Rightarrow> string option"
  http_head :: "string \<Rightarrow> error + response"
  http_get :: "string \<Rightarrow> error + response"
  named_temporary_file :: "nat \<Rightarrow> error + string"
  mkdtemp :: "nat \<Rightarrow> error + string"
  ydl_extract_info :: "string \<Rightarrow> error + ydl_info option"
  ydl_download :: "string \<Rightarrow> error + (string \<times> string) list"
  beautiful_soup :: "string \<Rightarrow> soup"
  findall_image_urls :: "string \<Rightarrow> string list"
  set_iteration :: "string list \<Rightarrow> string list"

text \<open>
  What the program has done to the outside: the network operations issued, in order, and
  the files it has left on disk (path and content).
\<close>

datatype net_op = HEAD string | GET string | EXTRACT_INFO string | DOWNLOAD string

record world =
  net_log :: "net_op list"
  files :: "(string \<times> string) list"

definition issue :: "net_op \<Rightarrow> world \<Rightarrow> world" where
  "issue op w = w\<lparr>net_log := net_log w @ [op]\<rparr>"

subsection \<open>utils.py\<close>

definition get_file_extension_from_url :: "env \<Rightarrow> string \<Rightarrow> error + string" where
  "get_file_extension_from_url E url =
     (case urlparse E url of
        Inl e \<Rightarrow> Inl e
      | Inr parsed_url \<Rightarrow> Inr (lower (path_suffix (unquote E (path parsed_url)))))"

definition get_file_extension_from_content_type :: "env \<Rightarrow> string option \<Rightarrow> string option" where
  "get_file_extension_from_content_type E content_type =
     (case content_type of
        None \<Rightarrow> None
      | Some ct \<Rightarrow>
          if ct = [] then None
          else (case guess_extension E (takeWhile (\<lambda>c. c \<noteq> CHR '';'') ct) of
                  None \<Rightarrow> None
                | Some extension \<Rightarrow> if extension = [] then None else Some (lower extension)))"

text \<open>
  The first four lines of \<open>is_supported_media\<close>, \<open>is_image\<close> and \<open>is_video\<close> are the
  same: the extension of a URL or of a file path.
\<close>

definition extension_of :: "env \<Rightarrow> string \<Rightarrow> error + string" where
  "extension_of E file_path_or_url =
     (if prefix ''http'' file_path_or_url then get_file_extension_from_url E file_path_or_url
      else Inr (lower (path_suffix file_path_or_url)))"

definition is_supported_media :: "env \<Rightarrow> string \<Rightarrow> error + bool" where
  "is_supported_media E file_path_or_url =
     (case extension_of E file_path_or_url of
        Inl e \<Rightarrow> Inl e
      | Inr ext \<Rightarrow> Inr (ext \<in> SUPPORTED_IMAGE_FORMATS \<or> ext \<in> SUPPORTED_VIDEO_FORMATS))"

definition is_image :: "env \<Rightarrow> string \<Rightarrow> error + bool" where
  "is_image E file_path_or_url =
     (case extension_of E file_path_or_url of
        Inl e \<Rightarrow> Inl e
      | Inr ext \<Rightarrow> Inr (ext \<in> SUPPORTED_IMAGE_FORMATS))"

definition is_video :: "env \<Rightarrow> string \<Rightarrow> error + bool" where
  "is_video E file_path_or_url =
     (case extension_of E file_path_or_url of
        Inl e \<Rightarrow> Inl e
      | Inr ext \<Rightarrow> Inr (ext \<in> SUPPORTED_VIDEO_FORMATS))"

text \<open>
  \<open>create_temp_file\<close>: the file is created and written, or \<open>tempfile\<close> fails and nothing
  is left behind.
\<close>

definition create_temp_file ::
  "env \<Rightarrow> string \<Rightarrow> string option \<Rightarrow> world \<Rightarrow> (error + string) \<times> world" where
  "create_temp_file E content extension w =
     (let suffix = (case extension of
                      None \<Rightarrow> []
                    | Some x \<Rightarrow> if x = [] then [] else if prefix ''.'' x then x else ''.'' @ x)
      in case named_temporary_file E (length (files w)) of
           Inl e \<Rightarrow> (Inl e, w)
         | Inr name \<Rightarrow> (Inr (name @ suffix), w\<lparr>files := files w @ [(name @ suffix, content)]\<rparr>))"

definition validate_url :: "env \<Rightarrow> string \<Rightarrow> bool" where
  "validate_url E url =
     (case urlparse E url of
        Inl e \<Rightarrow> False
      | Inr result \<Rightarrow> scheme result \<noteq> [] \<and> netloc result \<noteq> [])"

definition get_filename_from_url :: "env \<Rightarrow> string \<Rightarrow> error + string" where
  "get_filename_from_url E url =
     (case urlparse E url of
        Inl e \<Rightarrow> Inl e
      | Inr parsed_url \<Rightarrow>
          (let filename = path_name (unquote E (path parsed_url))
           in if filename = [] \<or> CHR ''.'' \<notin> set filename
              then Inr (''media_'' @ take 8 (md5_hexdigest E url))
              else Inr filename))"

subsection \<open>media\_extractor.py: the Direct Fetcher\<close>

text \<open>
  The names of the methods lose their leading underscore. A descriptor is the dictionary
  \<open>media_info\<close>, the field \<open>mi_k\<close> is its key \<open>k\<close>. The descriptors of the Direct
  Fetcher have no key \<open>title\<close> (\<open>T_absent\<close>), those of the Platform Extractor have no
  key \<open>content_type\<close> (\<open>None\<close>).
\<close>

datatype media_kind = IMAGE | VIDEO | DOCUMENT

record media_info =
  mi_file_path :: string
  mi_filename :: string
  mi_size :: nat
  mi_type :: media_kind
  mi_url :: string
  mi_content_type :: "string option"
  mi_title :: title_field

definition raise_for_status :: "response \<Rightarrow> error + unit" where
  "raise_for_status r =
     (if 400 \<le> status_code r \<and> status_code r < 600 then Inl (HTTPError (status_code r))
      else Inr ())"

text \<open>Lines 89 to 93: the declared size, when the header is there and not empty.\<close>

definition check_content_length :: "response \<Rightarrow> error + unit" where
  "check_content_length r =
     (case content_length_hdr r of
        None \<Rightarrow> Inr ()
      | Some content_length \<Rightarrow>
          if content_length = [] then Inr ()
          else (case py_int content_length of
                  None \<Rightarrow> Inl (ValueError Invalid_literal)
                | Some sz \<Rightarrow>
                    if sz > int MAX_DOCUMENT_SIZE then Inl (ValueError (File_too_large sz))
                    else Inr ()))"

text \<open>
  Lines 96 and 97: \<open>a or b\<close> evaluates \<open>b\<close> only when \<open>a\<close> is \<open>None\<close> or empty.
\<close>

definition extension_from_headers_or_url :: "env \<Rightarrow> response \<Rightarrow> string \<Rightarrow> error + string" where
  "extension_from_headers_or_url E r url =
     (case get_file_extension_from_content_type E (content_type_hdr r) of
        Some ext \<Rightarrow> Inr ext
      | None \<Rightarrow> get_file_extension_from_url E url)"

text \<open>
  Lines 100 to 104: the loop over \<open>iter_content\<close>, with \<open>content\<close> as its state. When the
  chunks are used up and the connection has broken, \<open>requests\<close> raises.
\<close>

fun iter_content_loop :: "string \<Rightarrow> string list \<Rightarrow> bool \<Rightarrow> error + string" where
  "iter_content_loop content [] broken = (if broken then Inl RequestException else Inr content)"
| "iter_content_loop content (chunk # rest) broken =
     (let content' = content @ chunk
      in if length content' > MAX_DOCUMENT_SIZE
         then Inl (ValueError File_too_large_during_download)
         else iter_content_loop content' rest broken)"

text \<open>Lines 107 and 108: the lower-cased content type, and the test for an HTML body.\<close>

definition lowered_content_type :: "response \<Rightarrow> string" where
  "lowered_content_type r = lower (case content_type_hdr r of None \<Rightarrow> [] | Some v \<Rightarrow> v)"

definition looks_like_html :: "string \<Rightarrow> string \<Rightarrow> bool" where
  "looks_like_html content_type content =
     (prefix ''text/html'' content_type \<or> sublist ''<html'' (bytes_lower (take 1000 content)))"

text \<open>Lines 115 to 125: the extension of an image follows the content type.\<close>

definition extension_for :: "string \<Rightarrow> string \<Rightarrow> string" where
  "extension_for content_type ext =
     (if prefix ''image/'' content_type then
        (if sublist ''jpeg'' content_type \<or> sublist ''jpg'' content_type then ''.jpg''
         else if sublist ''png'' content_type then ''.png''
         else if sublist ''gif'' content_type then ''.gif''
         else if sublist ''webp'' content_type then ''.webp''
         else ''.jpg'')
      else ext)"

text \<open>
  Lines 130 to 140. \<open>or\<close> stops at the first true operand, so a later operand that would
  raise is not evaluated.
\<close>

definition or_else :: "error + bool \<Rightarrow> error + bool \<Rightarrow> error + bool" where
  "or_else a b = (case a of Inl e \<Rightarrow> Inl e | Inr True \<Rightarrow> Inr True | Inr False \<Rightarrow> b)"

definition is_image_type :: "env \<Rightarrow> string \<Rightarrow> string \<Rightarrow> string \<Rightarrow> string \<Rightarrow> error + bool" where
  "is_image_type E content_type temp_path url filename =
     or_else (Inr (prefix ''image/'' content_type))
       (or_else (is_image E temp_path)
          (or_else (is_image E url)
             (Inr (\<exists>img_ext \<in> set [''.jpg'', ''.jpeg'', ''.png'', ''.gif'', ''.webp'', ''.bmp''].
                     suffix img_ext (lower filename)))))"

definition is_video_type :: "env \<Rightarrow> string \<Rightarrow> string \<Rightarrow> string \<Rightarrow> string \<Rightarrow> error + bool" where
  "is_video_type E content_type temp_path url filename =
     or_else (Inr (prefix ''video/'' content_type))
       (or_else (is_video E temp_path)
          (or_else (is_video E url)
             (Inr (\<exists>vid_ext \<in> set [''.mp4'', ''.avi'', ''.mov'', ''.mkv'', ''.webm'', ''.m4v''].
                     suffix vid_ext (lower filename)))))"

definition media_type_of :: "env \<Rightarrow> string \<Rightarrow> string \<Rightarrow> string \<Rightarrow> string \<Rightarrow> error + media_kind" where
  "media_type_of E content_type temp_path url filename =
     (case is_image_type E content_type temp_path url filename of
        Inl e \<Rightarrow> Inl e
      | Inr image_type \<Rightarrow>
          (case is_video_type E content_type temp_path url filename of
             Inl e \<Rightarrow> Inl e
           | Inr video_type \<Rightarrow>
               Inr (if image_type then IMAGE else if video_type then VIDEO else DOCUMENT)))"

text \<open>
  Lines 86 to 104: everything between the arrival of the response and the end of the
  download. The result is the extension found and the body.
\<close>

definition receive_body :: "env \<Rightarrow> string \<Rightarrow> response \<Rightarrow> error + string \<times> string" where
  "receive_body E url r =
     (case raise_for_status r of
        Inl e \<Rightarrow> Inl e
      | Inr _ \<Rightarrow>
          (case check_content_length r of
             Inl e \<Rightarrow> Inl e
           | Inr _ \<Rightarrow>
               (case extension_from_headers_or_url E r url of
                  Inl e \<Rightarrow> Inl e
                | Inr ext \<Rightarrow>
                    (case iter_content_loop [] (chunks r) (stream_broken r) of
                       Inl e \<Rightarrow> Inl e
                     | Inr content \<Rightarrow> Inr (ext, content)))))"

text \<open>Lines 106 to 152: from the downloaded body to the descriptor.\<close>

definition store_media ::
  "env \<Rightarrow> string \<Rightarrow> response \<Rightarrow> string \<Rightarrow> string \<Rightarrow> world \<Rightarrow> (error + media_info list) \<times> world" where
  "store_media E url r ext0 content w =
     (let content_type = lowered_content_type r
      in if looks_like_html content_type content
         then (Inl (ValueError Downloaded_content_is_HTML), w)
         else (case get_filename_from_url E url of
                 Inl e \<Rightarrow> (Inl e, w)
               | Inr filename \<Rightarrow>
                   (let ext = extension_for content_type ext0
                    in case create_temp_file E content (Some ext) w of
                         (Inl e, w') \<Rightarrow> (Inl e, w')
                       | (Inr temp_path, w') \<Rightarrow>
                           (case media_type_of E content_type temp_path url filename of
                              Inl e \<Rightarrow> (Inl e, w')
                            | Inr media_type \<Rightarrow>
                                (Inr [\<lparr>mi_file_path = temp_path, mi_filename = filename,
                                       mi_size = length content, mi_type = media_type,
                                       mi_url = url, mi_content_type = Some content_type,
                                       mi_title = T_absent\<rparr>], w')))))"

text \<open>
  \<open>_download_direct_media\<close>. The handler at the end of the method logs the exception and
  raises it again, so the exception of any step is the exception of the method.
\<close>

definition download_direct_media ::
  "env \<Rightarrow> string \<Rightarrow> world \<Rightarrow> (error + media_info list) \<times> world" where
  "download_direct_media E url w =
     (let w1 = issue (GET url) w
      in case http_get E url of
           Inl e \<Rightarrow> (Inl e, w1)
         | Inr r \<Rightarrow>
             (case receive_body E url r of
                Inl e \<Rightarrow> (Inl e, w1)
              | Inr (ext, content) \<Rightarrow> store_media E url r ext content w1))"

text \<open>\<open>_check_content_type\<close> and \<open>_is_direct_media_url\<close>.\<close>

definition check_content_type :: "env \<Rightarrow> string \<Rightarrow> world \<Rightarrow> bool \<times> world" where
  "check_content_type E url w =
     (let w1 = issue (HEAD url) w
      in case http_head E url of
           Inl e \<Rightarrow> (False, w1)
         | Inr r \<Rightarrow>
             (let content_type = lowered_content_type r
              in (prefix ''image/'' content_type \<or> prefix ''video/'' content_type \<or>
                  sublist ''image'' content_type \<or> sublist ''video'' content_type, w1)))"

definition is_direct_media_url :: "env \<Rightarrow> string \<Rightarrow> world \<Rightarrow> (error + bool) \<times> world" where
  "is_direct_media_url E url w =
     (case get_file_extension_from_url E url of
        Inl e \<Rightarrow> (Inl e, w)
      | Inr ext \<Rightarrow>
          (case is_supported_media E url of
             Inl e \<Rightarrow> (Inl e, w)
           | Inr True \<Rightarrow> (Inr True, w)
           | Inr False \<Rightarrow> (case check_content_type E url w of (b, w1) \<Rightarrow> (Inr b, w1))))"

subsection \<open>media\_extractor.py: the Platform Extractor\<close>

text \<open>Line 184: \<open>fmt.get('filesize') or fmt.get('filesize_approx', 0)\<close>.\<close>

definition format_filesize :: "ydl_format \<Rightarrow> real option" where
  "format_filesize fmt =
     (case fmt_filesize fmt of
        None \<Rightarrow> fmt_filesize_approx fmt
      | Some v \<Rightarrow> if v \<noteq> 0 then Some v else fmt_filesize_approx fmt)"

text \<open>Line 185: \<open>filesize and filesize <= MAX_VIDEO_SIZE\<close>.\<close>

definition within_limit :: "ydl_format \<Rightarrow> bool" where
  "within_limit fmt =
     (case format_filesize fmt of
        None \<Rightarrow> False
      | Some v \<Rightarrow> v \<noteq> 0 \<and> v \<le> real MAX_VIDEO_SIZE)"

text \<open>
  Line 186: \<open>fmt.get('quality', 0) > best_format.get('quality', 0)\<close>; Python refuses to
  compare \<open>None\<close>.
\<close>

definition quality_value :: "ydl_format \<Rightarrow> real option" where
  "quality_value fmt =
     (case fmt_quality fmt of Q_absent \<Rightarrow> Some 0 | Q_None \<Rightarrow> None | Q_num q \<Rightarrow> Some q)"

definition quality_gt :: "ydl_format \<Rightarrow> ydl_format \<Rightarrow> error + bool" where
  "quality_gt fmt best_format =
     (case (quality_value fmt, quality_value best_format) of
        (Some a, Some b) \<Rightarrow> Inr (a > b)
      | _ \<Rightarrow> Inl TypeError)"

text \<open>The number that line 186 compares, when the quality is a number or missing.\<close>

definition quality_number :: "ydl_format \<Rightarrow> real" where
  "quality_number fmt = (case fmt_quality fmt of Q_num q \<Rightarrow> q | _ \<Rightarrow> 0)"

text \<open>Lines 183 to 187: the loop over the renditions, with \<open>best_format\<close> as its state.\<close>

fun best_within_limit :: "ydl_format list \<Rightarrow> ydl_format option \<Rightarrow> error + ydl_format option" where
  "best_within_limit [] best_format = Inr best_format"
| "best_within_limit (fmt # rest) best_format =
     (if within_limit fmt then
        (case best_format of
           None \<Rightarrow> best_within_limit rest (Some fmt)
         | Some b \<Rightarrow>
             (case quality_gt fmt b of
                Inl e \<Rightarrow> Inl e
              | Inr True \<Rightarrow> best_within_limit rest (Some fmt)
              | Inr False \<Rightarrow> best_within_limit rest best_format))
      else best_within_limit rest best_format)"

text \<open>Lines 182 to 191: the selection, with the fallback to the first rendition.\<close>

definition select_format :: "ydl_format list \<Rightarrow> error + ydl_format option" where
  "select_format formats =
     (case best_within_limit formats None of
        Inl e \<Rightarrow> Inl e
      | Inr (Some b) \<Rightarrow> Inr (Some b)
      | Inr None \<Rightarrow> Inr (case formats of [] \<Rightarrow> None | f # _ \<Rightarrow> Some f))"

text \<open>
  Lines 165 to 174: the video to look at; \<open>Inr None\<close> is the method's \<open>return None\<close>. A
  playlist whose first entry is \<open>None\<close> fails at \<open>info.get\<close>.
\<close>

definition first_video :: "ydl_info option \<Rightarrow> error + video_info option" where
  "first_video info =
     (case info of
        None \<Rightarrow> Inr None
      | Some (Single v) \<Rightarrow> Inr (Some v)
      | Some (Playlist entries) \<Rightarrow>
          (case entries of
             [] \<Rightarrow> Inr None
           | None # _ \<Rightarrow> Inl AttributeError
           | Some v # _ \<Rightarrow> Inr (Some v)))"

text \<open>
  Lines 203 to 217: one descriptor for each downloaded file of a supported format.
  \<open>info.get('title', 'Unknown')\<close> gives the default only when the key is missing; a
  title that is there with the value \<open>None\<close> stays \<open>None\<close>.
\<close>

fun downloaded_files ::
  "env \<Rightarrow> string \<Rightarrow> video_info \<Rightarrow> string \<Rightarrow> (string \<times> string) list \<Rightarrow> error + media_info list" where
  "downloaded_files E url info temp_dir [] = Inr []"
| "downloaded_files E url info temp_dir ((file, content) # rest) =
     (let file_path = temp_dir @ ''/'' @ file
      in case is_supported_media E file_path of
           Inl e \<Rightarrow> Inl e
         | Inr False \<Rightarrow> downloaded_files E url info temp_dir rest
         | Inr True \<Rightarrow>
             (case is_video E file_path of
                Inl e \<Rightarrow> Inl e
              | Inr v \<Rightarrow>
                  (case downloaded_files E url info temp_dir rest of
                     Inl e \<Rightarrow> Inl e
                   | Inr others \<Rightarrow>
                       Inr (\<lparr>mi_file_path = file_path, mi_filename = file,
                             mi_size = length content,
                             mi_type = (if v then VIDEO else IMAGE), mi_url = url,
                             mi_content_type = None,
                             mi_title = (case info_title info of
                                           T_absent \<Rightarrow> T_str ''Unknown''
                                         | t \<Rightarrow> t)\<rparr> # others))))"

text \<open>
  Lines 193 to 223: the download, once a rendition has been selected. Line 193 tests the
  selected rendition for truth and nothing reads it after that: the engine is called with
  the URL and with a copy of the options of the extractor, whose \<open>format\<close> is
  \<open>best[filesize<50M]\<close> (lines 195 to 200). So the download is a function of the URL
  alone, \<open>ydl_download E url\<close>, and the selection is no argument of it.
\<close>

definition ytdlp_download ::
  "env \<Rightarrow> string \<Rightarrow> video_info \<Rightarrow> world \<Rightarrow> (error + media_info list option) \<times> world" where
  "ytdlp_download E url info w =
     (case mkdtemp E (length (files w)) of
        Inl e \<Rightarrow> (Inl e, w)
      | Inr temp_dir \<Rightarrow>
          (let w1 = issue (DOWNLOAD url) w
           in case ydl_download E url of
                Inl e \<Rightarrow> (Inl e, w1)
              | Inr produced \<Rightarrow>
                  (let w2 = w1\<lparr>files := files w1 @
                              map (\<lambda>(file, content). (temp_dir @ ''/'' @ file, content)) produced\<rparr>
                   in case downloaded_files E url info temp_dir produced of
                        Inl e \<Rightarrow> (Inl e, w2)
                      | Inr ds \<Rightarrow> (Inr (if ds \<noteq> [] then Some ds else None), w2))))"

text \<open>
  \<open>_extract_with_ytdlp\<close>: first the body of the \<open>try\<close>, then the method with its
  handler, which turns every exception into \<open>None\<close>.
\<close>

definition extract_with_ytdlp_body ::
  "env \<Rightarrow> string \<Rightarrow> world \<Rightarrow> (error + media_info list option) \<times> world" where
  "extract_with_ytdlp_body E url w =
     (let w1 = issue (EXTRACT_INFO url) w
      in case ydl_extract_info E url of
           Inl e \<Rightarrow> (Inl e, w1)
         | Inr info \<Rightarrow>
             (case first_video info of
                Inl e \<Rightarrow> (Inl e, w1)
              | Inr None \<Rightarrow> (Inr None, w1)
              | Inr (Some v) \<Rightarrow>
                  (let formats = info_formats v
                   in if formats = [] then (Inr None, w1)
                      else (case select_format formats of
                              Inl e \<Rightarrow> (Inl e, w1)
                            | Inr None \<Rightarrow> (Inr None, w1)
                            | Inr (Some best_format) \<Rightarrow> ytdlp_download E url v w1))))"

definition extract_with_ytdlp :: "env \<Rightarrow> string \<Rightarrow> world \<Rightarrow> media_info list option \<times> world" where
  "extract_with_ytdlp E url w =
     (case extract_with_ytdlp_body E url w of
        (Inl e, w') \<Rightarrow> (None, w')
      | (Inr r, w') \<Rightarrow> (r, w'))"

subsection \<open>media\_extractor.py: the Page Scraper\<close>

text \<open>
  The set \<open>media_urls\<close> is a list without repetitions; \<open>set_add\<close> is its \<open>add\<close>,
  \<open>length\<close> its \<open>len\<close>, and \<open>set_iteration E\<close> turns it into \<open>list(media_urls)\<close>.
\<close>

definition set_add :: "string \<Rightarrow> string list \<Rightarrow> string list" where
  "set_add x s = (if x \<in> set s then s else s @ [x])"

text \<open>Lines 247 to 251: the matches of one script, until three URLs are known.\<close>

fun add_matches :: "string list \<Rightarrow> string list \<Rightarrow> string list" where
  "add_matches [] media_urls = media_urls"
| "add_matches (m # ms) media_urls =
     (if sublist ''googleusercontent.com'' m \<or> sublist ''wikimedia.org'' m then
        (let media_urls' = set_add m media_urls
         in if length media_urls' \<ge> 3 then media_urls' else add_matches ms media_urls')
      else add_matches ms media_urls)"

text \<open>Lines 242 to 253: the scripts of an image search page.\<close>

fun scan_scripts :: "env \<Rightarrow> string option list \<Rightarrow> string list \<Rightarrow> string list" where
  "scan_scripts E [] media_urls = media_urls"
| "scan_scripts E (script # rest) media_urls =
     (case script of
        None \<Rightarrow> scan_scripts E rest media_urls
      | Some s \<Rightarrow>
          if s = [] then scan_scripts E rest media_urls
          else (let media_urls' = add_matches (findall_image_urls E s) media_urls
                in if length media_urls' \<ge> 3 then media_urls'
                   else scan_scripts E rest media_urls'))"

text \<open>
  Lines 261 to 269: true when the loop goes on to the next image. A width or height
  that is not a number leaves the image in.
\<close>

definition too_small :: "string option \<Rightarrow> string option \<Rightarrow> bool" where
  "too_small w h =
     (case (w, h) of
        (Some ws, Some hs) \<Rightarrow>
          if ws \<noteq> [] \<and> hs \<noteq> [] then
            (case (py_int ws, py_int hs) of
               (Some wi, Some hi) \<Rightarrow> wi < 100 \<or> hi < 100
             | _ \<Rightarrow> False)
          else False
      | _ \<Rightarrow> False)"

text \<open>Lines 256 to 272: the \<open>img\<close> elements.\<close>

fun scan_imgs :: "env \<Rightarrow> string \<Rightarrow> img_tag list \<Rightarrow> string list \<Rightarrow> error + string list" where
  "scan_imgs E url [] media_urls = Inr media_urls"
| "scan_imgs E url (img # rest) media_urls =
     (if img_src img = [] then scan_imgs E url rest media_urls
      else (case urljoin E url (img_src img) of
              Inl e \<Rightarrow> Inl e
            | Inr img_url \<Rightarrow>
                if too_small (img_width img) (img_height img)
                then scan_imgs E url rest media_urls
                else (case is_supported_media E img_url of
                        Inl e \<Rightarrow> Inl e
                      | Inr ok \<Rightarrow>
                          if ok \<and> \<not> sublist ''data:image'' img_url
                          then scan_imgs E url rest (set_add img_url media_urls)
                          else scan_imgs E url rest media_urls)))"

text \<open>
  Lines 275 to 304: the four loops over \<open>data-src\<close>, \<open>video\<close>, \<open>source\<close> and anchor
  attributes have the same body.
\<close>

fun scan_links :: "env \<Rightarrow> string \<Rightarrow> string list \<Rightarrow> string list \<Rightarrow> error + string list" where
  "scan_links E url [] media_urls = Inr media_urls"
| "scan_links E url (v # rest) media_urls =
     (if v = [] then scan_links E url rest media_urls
      else (case urljoin E url v of
              Inl e \<Rightarrow> Inl e
            | Inr link_url \<Rightarrow>
                (case is_supported_media E link_url of
                   Inl e \<Rightarrow> Inl e
                 | Inr ok \<Rightarrow>
                     scan_links E url rest (if ok then set_add link_url media_urls else media_urls))))"

text \<open>Lines 307 to 313: the Open Graph image.\<close>

definition scan_og_image :: "env \<Rightarrow> string \<Rightarrow> string option option \<Rightarrow> string list \<Rightarrow> error + string list" where
  "scan_og_image E url og media_urls =
     (case og of
        Some (Some c) \<Rightarrow> scan_links E url [c] media_urls
      | _ \<Rightarrow> Inr media_urls)"

text \<open>Lines 236 to 313: all the candidates of a page.\<close>

definition collect_media_urls :: "env \<Rightarrow> string \<Rightarrow> soup \<Rightarrow> error + string list" where
  "collect_media_urls E url page =
     (let s0 = (if sublist ''google.com'' url \<and> sublist ''tbm=isch'' url
                then scan_scripts E (soup_scripts page) [] else [])
      in case scan_imgs E url (soup_imgs page) s0 of
           Inl e \<Rightarrow> Inl e
         | Inr s1 \<Rightarrow>
             (case scan_links E url (soup_lazy_imgs page) s1 of
                Inl e \<Rightarrow> Inl e
              | Inr s2 \<Rightarrow>
                  (case scan_links E url (soup_videos page) s2 of
                     Inl e \<Rightarrow> Inl e
                   | Inr s3 \<Rightarrow>
                       (case scan_links E url (soup_sources page) s3 of
                          Inl e \<Rightarrow> Inl e
                        | Inr s4 \<Rightarrow>
                            (case scan_links E url (soup_anchors page) s4 of
                               Inl e \<Rightarrow> Inl e
                             | Inr s5 \<Rightarrow> scan_og_image E url (soup_og_image page) s5)))))"

text \<open>
  Lines 316 to 323: the downloads; a candidate whose download raises is skipped.
\<close>

fun download_all ::
  "env \<Rightarrow> string list \<Rightarrow> media_info list \<Rightarrow> world \<Rightarrow> media_info list \<times> world" where
  "download_all E [] downloaded_media w = (downloaded_media, w)"
| "download_all E (media_url # rest) downloaded_media w =
     (case download_direct_media E media_url w of
        (Inl e, w') \<Rightarrow> download_all E rest downloaded_media w'
      | (Inr media_files, w') \<Rightarrow> download_all E rest (downloaded_media @ media_files) w')"

text \<open>
  Lines 232 and 233: the page is fetched without streaming, so a connection that breaks
  fails the request itself.
\<close>

definition fetch_page :: "env \<Rightarrow> string \<Rightarrow> error + string" where
  "fetch_page E url =
     (case http_get E url of
        Inl e \<Rightarrow> Inl e
      | Inr r \<Rightarrow>
          if stream_broken r then Inl RequestException
          else (case raise_for_status r of
                  Inl e \<Rightarrow> Inl e
                | Inr _ \<Rightarrow> Inr (concat (chunks r))))"

text \<open>
  \<open>_scrape_media_from_page\<close>: the body of the \<open>try\<close> (lines 232 to 329), then the method
  with its handler (lines 331 to 333).
\<close>

definition scrape_media_from_page_body ::
  "env \<Rightarrow> string \<Rightarrow> world \<Rightarrow> (error + media_info list option) \<times> world" where
  "scrape_media_from_page_body E url w =
     (let w1 = issue (GET url) w
      in case fetch_page E url of
           Inl e \<Rightarrow> (Inl e, w1)
         | Inr html \<Rightarrow>
             (case collect_media_urls E url (beautiful_soup E html) of
                Inl e \<Rightarrow> (Inl e, w1)
              | Inr media_urls \<Rightarrow>
                  (case download_all E (take 5 (set_iteration E media_urls)) [] w1 of
                     (downloaded_media, w2) \<Rightarrow>
                       (Inr (if downloaded_media \<noteq> [] then Some downloaded_media else None), w2))))"

definition scrape_media_from_page ::
  "env \<Rightarrow> string \<Rightarrow> world \<Rightarrow> (error + media_info list option) \<times> world" where
  "scrape_media_from_page E url w =
     (case scrape_media_from_page_body E url w of
        (Inl e, w') \<Rightarrow> (Inr None, w')
      | (Inr r, w') \<Rightarrow> (Inr r, w'))"

subsection \<open>media\_extractor.py: the Resolution Orchestrator\<close>

text \<open>\<open>if media_files:\<close> holds for a list that is not empty.\<close>

definition found :: "media_info list option \<Rightarrow> bool" where
  "found media_files = (case media_files of None \<Rightarrow> False | Some ms \<Rightarrow> ms \<noteq> [])"

definition extract_media_from_url ::
  "env \<Rightarrow> string \<Rightarrow> world \<Rightarrow> (error + media_info list) \<times> world" where
  "extract_media_from_url E url w =
     (if \<not> validate_url E url then (Inl (ValueError Invalid_URL_format), w)
      else (case is_direct_media_url E url w of
              (Inl e, w1) \<Rightarrow> (Inl e, w1)
            | (Inr True, w1) \<Rightarrow> download_direct_media E url w1
            | (Inr False, w1) \<Rightarrow>
                (case extract_with_ytdlp E url w1 of
                   (media_files, w2) \<Rightarrow>
                     if found media_files then (Inr (the media_files), w2)
                     else (case scrape_media_from_page E url w2 of
                             (Inl e, w3) \<Rightarrow> (Inl e, w3)
                           | (Inr media_files', w3) \<Rightarrow>
                               if found media_files' then (Inr (the media_files'), w3)
                               else (Inl (ValueError No_supported_media_found), w3)))))"

subsection \<open>bot.py: the Delivery Tracker\<close>

text \<open>
  \<open>sent_messages\<close> is a dictionary from the message key to the dictionary of the
  message; it is an association list here, in the order of insertion. The flag
  \<open>tm_warned\<close> is false when the key \<open>warned\<close> is missing. Times are the seconds of
  \<open>time.time()\<close>: doubles, here the real numbers they stand for.
\<close>

record tracked =
  tm_chat_id :: int
  tm_message_id :: int
  tm_sent_time :: real
  tm_filename :: string
  tm_warned :: bool

type_synonym table = "(string \<times> tracked) list"

text \<open>
  Lines 369 to 376 of \<open>_send_media_file\<close>: a message that has been sent is entered
  under the key \<open>f"{chat_id}_{message_id}"\<close>, without the key \<open>warned\<close>. Assigning to
  a key of a dictionary replaces the value of the key or adds the key at the end.
\<close>

definition digit_char :: "nat \<Rightarrow> char" where
  "digit_char d = ''0123456789'' ! d"

fun str_nat :: "nat \<Rightarrow> string" where
  "str_nat n = (if n < 10 then [digit_char n] else str_nat (n div 10) @ [digit_char (n mod 10)])"

declare str_nat.simps [simp del]

definition str_int :: "int \<Rightarrow> string" where
  "str_int i = (if i < 0 then CHR ''-'' # str_nat (nat (- i)) else str_nat (nat i))"

definition key_of :: "int \<Rightarrow> int \<Rightarrow> string" where
  "key_of chat_id message_id = str_int chat_id @ ''_'' @ str_int message_id"

fun assign :: "string \<Rightarrow> tracked \<Rightarrow> table \<Rightarrow> table" where
  "assign k v [] = [(k, v)]"
| "assign k v ((k', v') # rest) = (if k' = k then (k, v) # rest else (k', v') # assign k v rest)"

definition track :: "int \<Rightarrow> int \<Rightarrow> real \<Rightarrow> string \<Rightarrow> table \<Rightarrow> table" where
  "track chat_id message_id now filename sent_messages =
     assign (key_of chat_id message_id)
       \<lparr>tm_chat_id = chat_id, tm_message_id = message_id, tm_sent_time = now,
        tm_filename = filename, tm_warned = False\<rparr>
       sent_messages"

text \<open>
  The two coroutines the worker hands to \<open>asyncio.create_task\<close>. \<open>create_task\<close>
  schedules a coroutine on the event loop that runs in the calling thread (\<open>None\<close>: the
  call returns), and raises \<open>RuntimeError\<close> when no event loop runs in that thread.
\<close>

datatype task = Send_deletion_warning int string | Delete_message int int

definition create_task :: "bool \<Rightarrow> task \<Rightarrow> error option" where
  "create_task running_loop coro = (if running_loop then None else Some RuntimeError)"

text \<open>
  Lines 83 to 85: \<open>auto_delete_worker\<close> is the target of a \<open>threading.Thread\<close>, and it
  runs nowhere else. The event loop of the application runs in the main thread; the worker
  starts none and is given none, so no event loop runs in the thread of its calls.
\<close>

definition worker_running_loop :: bool where
  "worker_running_loop = False"

text \<open>
  What the worker takes from outside during a pass: the difference of two doubles as the
  machine rounds it (\<open>float_sub a b\<close> is Python's \<open>a - b\<close>, which need not be the
  difference of the reals), and the answers of the chat platform to the calls of the bot,
  which raise or succeed.
\<close>

record bot_env =
  float_sub :: "real \<Rightarrow> real \<Rightarrow> real"
  bot_send_message :: "int \<Rightarrow> string \<Rightarrow> error option"
  bot_delete_message :: "int \<Rightarrow> int \<Rightarrow> error option"

text \<open>
  What a pass does, in order: a warning was scheduled for a key and was delivered or
  not, a deletion was scheduled for a key and the platform deleted the message or not,
  or one of the two handlers of the worker logged an error for the key.
\<close>

datatype event =
    Warned string
  | Warning_failed string
  | Deleted string
  | Delete_failed string
  | Error_sending_warning string
  | Error_scheduling_deletion string

text \<open>
  \<open>_send_deletion_warning\<close> and \<open>_delete_message\<close> catch every exception of the call
  they make and log it.
\<close>

definition send_deletion_warning :: "bot_env \<Rightarrow> string \<Rightarrow> tracked \<Rightarrow> event" where
  "send_deletion_warning B message_key message_info =
     (case bot_send_message B (tm_chat_id message_info) (tm_filename message_info) of
        None \<Rightarrow> Warned message_key
      | Some e \<Rightarrow> Warning_failed message_key)"

definition delete_message :: "bot_env \<Rightarrow> string \<Rightarrow> tracked \<Rightarrow> event" where
  "delete_message B message_key message_info =
     (case bot_delete_message B (tm_chat_id message_info) (tm_message_id message_info) of
        None \<Rightarrow> Deleted message_key
      | Some e \<Rightarrow> Delete_failed message_key)"

text \<open>
  Lines 36 and 45. \<open>AUTO_DELETE_AFTER_HOURS\<close> is the integer 1, so both thresholds are
  integers, and Python compares a double with an integer exactly.
\<close>

definition delete_threshold :: real where
  "delete_threshold = AUTO_DELETE_AFTER_HOURS * 3600"

definition warn_threshold :: real where
  "warn_threshold = delete_threshold - 300"

text \<open>The test of lines 40 and 41 for one entry, and the keys of the items that pass it.\<close>

definition expired :: "bot_env \<Rightarrow> real \<Rightarrow> tracked \<Rightarrow> bool" where
  "expired B current_time message_info =
     (float_sub B current_time (tm_sent_time message_info) > delete_threshold)"

definition expired_keys :: "bot_env \<Rightarrow> real \<Rightarrow> table \<Rightarrow> string list" where
  "expired_keys B current_time items =
     map fst (filter (\<lambda>(message_key, message_info). expired B current_time message_info) items)"

text \<open>
  Lines 38 to 42. The loop iterates the dictionary itself, not a copy, while the handler
  of messages, in the main thread, may enter a message. \<open>entering\<close> says whether that
  happens during the loop: \<open>Some (n, chat_id, message_id, now, filename)\<close> is a message
  entered after the loop has read \<open>n\<close> items (all of them, when there are fewer). The
  iterator of a dictionary compares the size of the dictionary with the size at its start
  every time it is asked for the next item, also the last time, when no item is left: a
  new key raises \<open>RuntimeError\<close> there. Nothing in the worker catches it, the loop is
  outside every \<open>try\<close>. A key that is already in the dictionary leaves the size as it is,
  and the rest of the items is read with the new value. The result is the list
  \<open>messages_to_delete\<close> or the exception, and the dictionary as the loop leaves it.
\<close>

definition messages_to_delete ::
  "bot_env \<Rightarrow> real \<Rightarrow> (nat \<times> int \<times> int \<times> real \<times> string) option \<Rightarrow> table \<Rightarrow>
     (error + string list) \<times> table" where
  "messages_to_delete B current_time entering sent_messages =
     (case entering of
        None \<Rightarrow> (Inr (expired_keys B current_time sent_messages), sent_messages)
      | Some (n, chat_id, message_id, now, filename) \<Rightarrow>
          (let entered = track chat_id message_id now filename sent_messages
           in if length entered \<noteq> length sent_messages
              then (Inl RuntimeError, entered)
              else (Inr (expired_keys B current_time (take n sent_messages @ drop n entered)),
                    entered)))"

definition set_warned :: "string \<Rightarrow> table \<Rightarrow> table" where
  "set_warned message_key sent_messages =
     map (\<lambda>(k, info). if k = message_key then (k, info\<lparr>tm_warned := True\<rparr>) else (k, info))
       sent_messages"

text \<open>
  Lines 46 to 65: the loop over a copy of the items. \<open>message_info\<close> is the very
  dictionary that the table holds under \<open>message_key\<close>, so its flag is read from the
  table. The flag is set in the line after \<open>create_task\<close>, inside the same \<open>try\<close>.
\<close>

fun warn_loop ::
  "bot_env \<Rightarrow> real \<Rightarrow> string list \<Rightarrow> table \<Rightarrow> event list \<Rightarrow> table \<times> event list" where
  "warn_loop B current_time [] sent_messages events = (sent_messages, events)"
| "warn_loop B current_time (message_key # rest) sent_messages events =
     (case map_of sent_messages message_key of
        None \<Rightarrow> warn_loop B current_time rest sent_messages events
      | Some message_info \<Rightarrow>
          (let time_elapsed = float_sub B current_time (tm_sent_time message_info)
           in if time_elapsed > warn_threshold \<and> time_elapsed < delete_threshold \<and>
                 \<not> tm_warned message_info
              then (case create_task worker_running_loop
                           (Send_deletion_warning (tm_chat_id message_info)
                              (tm_filename message_info)) of
                      Some e \<Rightarrow>
                        warn_loop B current_time rest sent_messages
                          (events @ [Error_sending_warning message_key])
                    | None \<Rightarrow>
                        warn_loop B current_time rest (set_warned message_key sent_messages)
                          (events @ [send_deletion_warning B message_key message_info]))
              else warn_loop B current_time rest sent_messages events))"

text \<open>
  Lines 68 to 78: the expired messages. A missing key is the \<open>KeyError\<close> of line 70,
  caught like the exception of \<open>create_task\<close>; the entry is deleted in the line after
  \<open>create_task\<close>, inside the same \<open>try\<close>.
\<close>

fun delete_loop ::
  "bot_env \<Rightarrow> string list \<Rightarrow> table \<Rightarrow> event list \<Rightarrow> table \<times> event list" where
  "delete_loop B [] sent_messages events = (sent_messages, events)"
| "delete_loop B (message_key # rest) sent_messages events =
     (case map_of sent_messages message_key of
        None \<Rightarrow> delete_loop B rest sent_messages (events @ [Error_scheduling_deletion message_key])
      | Some message_info \<Rightarrow>
          (case create_task worker_running_loop
                  (Delete_message (tm_chat_id message_info) (tm_message_id message_info)) of
             Some e \<Rightarrow>
               delete_loop B rest sent_messages (events @ [Error_scheduling_deletion message_key])
           | None \<Rightarrow>
               delete_loop B rest (filter (\<lambda>(k, info). k \<noteq> message_key) sent_messages)
                 (events @ [delete_message B message_key message_info])))"

text \<open>
  Lines 35 to 78: one pass of the worker's loop at the time \<open>current_time\<close>. The result
  is what the pass logged, or the exception that leaves it, and the table after it.
\<close>

definition sweep ::
  "bot_env \<Rightarrow> real \<Rightarrow> (nat \<times> int \<times> int \<times> real \<times> string) option \<Rightarrow> table \<Rightarrow>
     (error + event list) \<times> table" where
  "sweep B current_time entering sent_messages =
     (case messages_to_delete B current_time entering sent_messages of
        (Inl e, scanned) \<Rightarrow> (Inl e, scanned)
      | (Inr to_delete, scanned) \<Rightarrow>
          (case warn_loop B current_time (map fst scanned) scanned [] of
             (warned, events) \<Rightarrow>
               (case delete_loop B to_delete warned events of
                  (deleted, events') \<Rightarrow> (Inr events', deleted))))"

text \<open>
  \<open>auto_delete_worker\<close> loops until an exception leaves the loop, which ends the thread.
  A run of it is the list of its passes: for each the reading of the clock, the
  environment, and the message entered during the first loop, if any. The result is
  the exception that ended the thread (\<open>None\<close>: the thread is still running), the table
  after the last pass and everything the passes logged.
\<close>

fun auto_delete_worker ::
  "(real \<times> bot_env \<times> (nat \<times> int \<times> int \<times> real \<times> string) option) list \<Rightarrow> table \<Rightarrow>
     error option \<times> table \<times> event list" where
  "auto_delete_worker [] sent_messages = (None, sent_messages, [])"
| "auto_delete_worker ((current_time, B, entering) # passes) sent_messages =
     (case sweep B current_time entering sent_messages of
        (Inl e, swept) \<Rightarrow> (Some e, swept, [])
      | (Inr events, swept) \<Rightarrow>
          (case auto_delete_worker passes swept of
             (ended, sent_messages', events') \<Rightarrow> (ended, sent_messages', events @ events')))"

text \<open>
  For the properties: whether the second loop finds a warning due for a key, and whether
  an event says that a warning or a deletion was scheduled.
\<close>

definition warning_due :: "bot_env \<Rightarrow> real \<Rightarrow> table \<Rightarrow> string \<Rightarrow> bool" where
  "warning_due B current_time sent_messages message_key =
     (case map_of sent_messages message_key of
        None \<Rightarrow> False
      | Some message_info \<Rightarrow>
          float_sub B current_time (tm_sent_time message_info) > warn_threshold \<and>
          float_sub B current_time (tm_sent_time message_info) < delete_threshold \<and>
          \<not> tm_warned message_info)"

fun scheduled :: "event \<Rightarrow> bool" where
  "scheduled (Warned k) = True"
| "scheduled (Warning_failed k) = True"
| "scheduled (Deleted k) = True"
| "scheduled (Delete_failed k) = True"
| "scheduled (Error_sending_warning k) = False"
| "scheduled (Error_scheduling_deletion k) = False"

subsection \<open>bot.py: the message handler\<close>

text \<open>
  The pattern of \<open>_extract_urls\<close> is
  \<^verbatim>\<open>http[s]?://(?:[a-zA-Z]|[0-9]|[$-_@.&+]|[!*\\(\\),]|(?:%[0-9a-fA-F][0-9a-fA-F]))+\<close>.
  The class \<^verbatim>\<open>[$-_@.&+]\<close> holds the range from \<open>$\<close> to \<open>_\<close>, which is written out in
  \<open>dollar_to_underscore\<close>. The last alternative, a percent sign and two hexadecimal
  digits, matches nothing new: the percent sign and the digits are in the classes before
  it. So the repeated group matches the longest run of \<open>url_char\<close>.
\<close>

definition ascii_upper :: string where
  "ascii_upper = ''ABCDEFGHIJKLMNOPQRSTUVWXYZ''"

definition ascii_lower :: string where
  "ascii_lower = ''abcdefghijklmnopqrstuvwxyz''"

definition dollar_to_underscore :: string where
  "dollar_to_underscore =
     [CHR 0x24, CHR 0x25, CHR 0x26, CHR 0x27, CHR 0x28, CHR 0x29, CHR 0x2A, CHR 0x2B,
      CHR 0x2C, CHR 0x2D, CHR 0x2E, CHR 0x2F] @ ''0123456789'' @
     [CHR 0x3A, CHR 0x3B, CHR 0x3C, CHR 0x3D, CHR 0x3E, CHR 0x3F, CHR 0x40] @ ascii_upper @
     [CHR 0x5B, CHR 0x5C, CHR 0x5D, CHR 0x5E, CHR 0x5F]"

definition url_char :: "char \<Rightarrow> bool" where
  "url_char c =
     (c \<in> set (ascii_lower @ ascii_upper) \<or> c \<in> set ''0123456789'' \<or>
      c \<in> set (dollar_to_underscore @ ''@.&+'') \<or>
      c \<in> set [CHR ''!'', CHR ''*'', CHR 0x5C, CHR ''('', CHR 0x5C, CHR '')'', CHR '',''])"

text \<open>A match that starts at the first character of the text.\<close>

definition match_url_at :: "string \<Rightarrow> string option" where
  "match_url_at s =
     (if prefix ''https://'' s then
        (let m = takeWhile url_char (drop 8 s) in if m = [] then None else Some (''https://'' @ m))
      else if prefix ''http://'' s then
        (let m = takeWhile url_char (drop 7 s) in if m = [] then None else Some (''http://'' @ m))
      else None)"

text \<open>
  \<open>re.findall\<close>: the matches from left to right, each search starting where the match
  before it ended.
\<close>

fun findall_urls :: "string \<Rightarrow> string list" where
  "findall_urls [] = []"
| "findall_urls (c # cs) =
     (case match_url_at (c # cs) of
        None \<Rightarrow> findall_urls cs
      | Some m \<Rightarrow> m # findall_urls (drop (length m - 1) cs))"

definition extract_urls :: "env \<Rightarrow> string \<Rightarrow> string list" where
  "extract_urls E t = filter (validate_url E) (findall_urls t)"

text \<open>
  Lines 201 and 202: the loop over \<open>urls[:3]\<close>. \<open>_process_url\<close> is a parameter: it
  returns, or it raises (when the chat platform refuses the status message), and then the
  handler ends. The second component of the result lists the URLs that
  \<open>_process_url\<close> was called with, in order.
\<close>

fun process_each :: "(string \<Rightarrow> error option) \<Rightarrow> string list \<Rightarrow> error option \<times> string list" where
  "process_each process_url [] = (None, [])"
| "process_each process_url (u # rest) =
     (case process_url u of
        Some e \<Rightarrow> (Some e, [u])
      | None \<Rightarrow> (case process_each process_url rest of (r, called) \<Rightarrow> (r, u # called)))"

text \<open>
  \<open>handle_url_message\<close>: \<open>reply_text\<close> is the answer of the platform to the message
  that no URL was found.
\<close>

definition handle_url_message ::
  "env \<Rightarrow> (string \<Rightarrow> error option) \<Rightarrow> error option \<Rightarrow> string \<Rightarrow> error option \<times> string list" where
  "handle_url_message E process_url reply_text t =
     (let message_text = strip t;
          urls = extract_urls E message_text
      in if urls = [] then (reply_text, [])
         else process_each process_url (take 3 urls))"

subsection \<open>Collaborators for the examples\<close>

text \<open>
  The examples below need one concrete environment. \<open>example_urlparse\<close> splits a URL as
  \<open>urlparse\<close> does for the URLs of the examples (a scheme, \<open>//\<close>, a host, a path,
  an optional query or fragment, no brackets, blanks or parameters); the other functions
  are given by cases.
\<close>

definition scheme_chars :: string where
  "scheme_chars = ascii_lower @ ascii_upper @ ''0123456789+-.''"

definition example_urlparse :: "string \<Rightarrow> error + url_parts" where
  "example_urlparse u =
     (let lead = takeWhile (\<lambda>c. c \<noteq> CHR '':'') u;
          has_scheme = (CHR '':'' \<in> set u \<and> lead \<noteq> [] \<and>
                        hd lead \<in> set (ascii_lower @ ascii_upper) \<and>
                        list_all (\<lambda>c. c \<in> set scheme_chars) lead);
          rest = (if has_scheme then drop (length lead + 1) u else u);
          has_netloc = prefix ''//'' rest;
          loc = (if has_netloc then takeWhile (\<lambda>c. c \<notin> set ''/?#'') (drop 2 rest) else []);
          rest' = (if has_netloc then drop (2 + length loc) rest else rest)
      in Inr \<lparr>scheme = (if has_scheme then lower lead else []), netloc = loc,
              path = takeWhile (\<lambda>c. c \<notin> set ''?#'') rest'\<rparr>)"

definition ok_response :: "string \<Rightarrow> string list \<Rightarrow> response" where
  "ok_response ct body =
     \<lparr>status_code = 200, content_length_hdr = None, content_type_hdr = Some ct,
      chunks = body, stream_broken = False\<rparr>"

definition example_env :: env where
  "example_env =
     \<lparr>urlparse = example_urlparse,
      unquote = (\<lambda>s. s),
      urljoin = (\<lambda>base u. Inr (if prefix ''http'' u then u else ''https://x.test/'' @ u)),
      md5_hexdigest = (\<lambda>s. ''9e107d9d372bb6826bd81d3542a419d6''),
      guess_extension = (\<lambda>t. if t = ''image/jpeg'' then Some ''.jpg''
                              else if t = ''image/png'' then Some ''.png'' else None),
      http_head = (\<lambda>u. Inl RequestException),
      http_get = (\<lambda>u. if u = ''https://x.test/page.html''
                         then Inr (ok_response ''text/html'' [''<html></html>''])
                       else if u = ''https://x.test/a.jpg''
                         then Inr (ok_response ''image/jpeg'' [''JFIF'', ''data''])
                       else if u = ''https://x.test/c.png''
                         then Inr (ok_response ''image/png'' [''PNG''])
                       else Inl RequestException),
      named_temporary_file = (\<lambda>n. Inr (''/tmp/tmp'' @ replicate n (CHR ''a''))),
      mkdtemp = (\<lambda>n. Inr (''/tmp/dir'' @ replicate n (CHR ''a''))),
      ydl_extract_info = (\<lambda>u. Inl DownloadError),
      ydl_download = (\<lambda>u. Inl DownloadError),
      beautiful_soup = (\<lambda>html. \<lparr>soup_scripts = [],
         soup_imgs = [\<lparr>img_src = ''b.png'', img_width = Some ''50'', img_height = Some ''50''\<rparr>,
                      \<lparr>img_src = ''a.jpg'', img_width = None, img_height = None\<rparr>],
         soup_lazy_imgs = [], soup_videos = [], soup_sources = [],
         soup_anchors = [''a.jpg''], soup_og_image = Some (Some ''c.png'')\<rparr>),
      findall_image_urls = (\<lambda>s. []),
      set_iteration = rev\<rparr>"

definition empty_world :: world where
  "empty_world = \<lparr>net_log = [], files = []\<rparr>"

text \<open>
  Two more environments: one whose server sends a body of one byte more than the
  ceiling for documents, and one whose server answers with an HTML page and status 404.
\<close>

definition oversize_env :: env where
  "oversize_env =
     example_env\<lparr>http_get :=
       (\<lambda>u. Inr (ok_response ''video/mp4'' [replicate 3221225473 (CHR ''a'')]))\<rparr>"

definition not_found_response :: response where
  "not_found_response =
     \<lparr>status_code = 404, content_length_hdr = None, content_type_hdr = Some ''text/html'',
      chunks = [''<html>Not Found</html>''], stream_broken = False\<rparr>"

definition not_found_env :: env where
  "not_found_env = example_env\<lparr>http_get := (\<lambda>u. Inr not_found_response)\<rparr>"

text \<open>
  Renditions for the examples: two above the ceiling for videos, and three below it, of
  which the last has the key \<open>quality\<close> with the value \<open>None\<close>.
\<close>

definition rendition :: "string \<Rightarrow> real option \<Rightarrow> real option \<Rightarrow> quality_field \<Rightarrow> ydl_format" where
  "rendition i s a q =
     \<lparr>fmt_format_id = i, fmt_filesize = s, fmt_filesize_approx = a, fmt_quality = q\<rparr>"

definition huge_1080p :: ydl_format where
  "huge_1080p = rendition ''1080p'' (Some 5000000000) None (Q_num 3)"

definition huge_720p :: ydl_format where
  "huge_720p = rendition ''720p'' None (Some 4000000000) (Q_num 2)"

definition small_480p :: ydl_format where
  "small_480p = rendition ''480p'' (Some 90000000) None (Q_num 1)"

definition small_240p :: ydl_format where
  "small_240p = rendition ''240p'' None (Some 30000000.5) Q_absent"

definition small_hls :: ydl_format where
  "small_hls = rendition ''hls'' (Some 40000000) None Q_None"

text \<open>
  An environment whose video engine offers the given renditions for every URL and
  downloads one file of ten bytes.
\<close>

definition clip :: "ydl_format list \<Rightarrow> video_info" where
  "clip formats = \<lparr>info_formats = formats, info_title = T_str ''clip''\<rparr>"

definition video_env :: "ydl_format list \<Rightarrow> env" where
  "video_env formats =
     example_env\<lparr>ydl_extract_info := (\<lambda>u. Inr (Some (Single (clip formats)))),
                  ydl_download := (\<lambda>u. Inr [(''clip.mp4'', ''0123456789'')])\<rparr>"

text \<open>
  A table for the examples, read at the time 4000: the first message was sent 3400
  seconds before, the second 3700 seconds before. All times of the example are whole
  numbers of seconds, whose difference a double holds exactly.
\<close>

definition example_table :: table where
  "example_table =
     [(''7_10'', \<lparr>tm_chat_id = 7, tm_message_id = 10, tm_sent_time = 600,
                  tm_filename = ''a.jpg'', tm_warned = False\<rparr>),
      (''7_11'', \<lparr>tm_chat_id = 7, tm_message_id = 11, tm_sent_time = 300,
                  tm_filename = ''c.png'', tm_warned = False\<rparr>)]"

definition example_bot :: bot_env where
  "example_bot = \<lparr>float_sub = (\<lambda>a b. a - b), bot_send_message = (\<lambda>c f. None),
                   bot_delete_message = (\<lambda>c m. None)\<rparr>"
section \<open>Properties\<close>

subsection \<open>Evaluating the examples\<close>

lemmas string_defs =
  lower_def lower_char_def bytes_lower_def bytes_lower_char_def Let_def
  char_of_def bit_iff_odd_drop_bit ascii_lower_def ascii_upper_def

lemmas path_defs = path_suffix_def path_name_def path_parts_def

lemmas format_defs = SUPPORTED_IMAGE_FORMATS_def SUPPORTED_VIDEO_FORMATS_def

lemma example_urlparse_a_jpg:
  "example_urlparse ''https://x.test/a.jpg'' =
     Inr \<lparr>scheme = ''https'', netloc = ''x.test'', path = ''/a.jpg''\<rparr>"
  by (simp add: example_urlparse_def scheme_chars_def string_defs)

lemma example_env_sel:
  "urlparse example_env = example_urlparse"
  "unquote example_env = (\<lambda>s. s)"
  "urljoin example_env =
     (\<lambda>base u. Inr (if prefix ''http'' u then u else ''https://x.test/'' @ u))"
  "md5_hexdigest example_env = (\<lambda>s. ''9e107d9d372bb6826bd81d3542a419d6'')"
  "guess_extension example_env =
     (\<lambda>t. if t = ''image/jpeg'' then Some ''.jpg''
          else if t = ''image/png'' then Some ''.png'' else None)"
  "http_head example_env = (\<lambda>u. Inl RequestException)"
  "http_get example_env ''https://x.test/page.html'' =
     Inr (ok_response ''text/html'' [''<html></html>''])"
  "http_get example_env ''https://x.test/a.jpg'' =
     Inr (ok_response ''image/jpeg'' [''JFIF'', ''data''])"
  "http_get example_env ''https://x.test/c.png'' = Inr (ok_response ''image/png'' [''PNG''])"
  "http_get example_env ''https://x.test/none.html'' = Inl RequestException"
  "named_temporary_file example_env = (\<lambda>n. Inr (''/tmp/tmp'' @ replicate n (CHR ''a'')))"
  "ydl_extract_info example_env = (\<lambda>u. Inl DownloadError)"
  "findall_image_urls example_env = (\<lambda>s. [])"
  "set_iteration example_env = rev"
  by (simp_all add: example_env_def)

lemma example_soup:
  "beautiful_soup example_env h =
     \<lparr>soup_scripts = [],
      soup_imgs = [\<lparr>img_src = ''b.png'', img_width = Some ''50'', img_height = Some ''50''\<rparr>,
                   \<lparr>img_src = ''a.jpg'', img_width = None, img_height = None\<rparr>],
      soup_lazy_imgs = [], soup_videos = [], soup_sources = [],
      soup_anchors = [''a.jpg''], soup_og_image = Some (Some ''c.png'')\<rparr>"
  by (simp add: example_env_def)

lemma example_urlparse_c_png:
  "example_urlparse ''https://x.test/c.png'' =
     Inr \<lparr>scheme = ''https'', netloc = ''x.test'', path = ''/c.png''\<rparr>"
  by (simp add: example_urlparse_def scheme_chars_def string_defs)

lemma example_urlparse_b_png:
  "example_urlparse ''https://x.test/b.png'' =
     Inr \<lparr>scheme = ''https'', netloc = ''x.test'', path = ''/b.png''\<rparr>"
  by (simp add: example_urlparse_def scheme_chars_def string_defs)

lemma example_urlparse_none:
  "example_urlparse ''https://x.test/none.html'' =
     Inr \<lparr>scheme = ''https'', netloc = ''x.test'', path = ''/none.html''\<rparr>"
  by (simp add: example_urlparse_def scheme_chars_def string_defs)

subsection \<open>Images and videos\<close>

lemma formats_disjoint: "SUPPORTED_IMAGE_FORMATS \<inter> SUPPORTED_VIDEO_FORMATS = {}"
  by (auto simp: format_defs)

text \<open>
  Claim C10. No file path or URL is both an image and a video for \<open>is_image\<close> and
  \<open>is_video\<close>, because the two sets of supported extensions are disjoint. The kind that
  the Direct Fetcher gives a descriptor is one of the three: \<open>IMAGE\<close> exactly when the
  image test holds, \<open>VIDEO\<close> exactly when it fails and the video test holds, and
  \<open>DOCUMENT\<close> exactly when both fail.
\<close>

theorem image_and_video_exclusive:
  "SUPPORTED_IMAGE_FORMATS \<inter> SUPPORTED_VIDEO_FORMATS = {} \<and>
   \<not> (is_image E s = Inr True \<and> is_video E s = Inr True) \<and>
   (\<forall>k. media_type_of E ct tp u f = Inr k \<longrightarrow>
      (\<exists>a b. is_image_type E ct tp u f = Inr a \<and> is_video_type E ct tp u f = Inr b \<and>
         (k = IMAGE \<longleftrightarrow> a) \<and> (k = VIDEO \<longleftrightarrow> \<not> a \<and> b) \<and> (k = DOCUMENT \<longleftrightarrow> \<not> a \<and> \<not> b)))"
proof (intro conjI allI impI)
  show "SUPPORTED_IMAGE_FORMATS \<inter> SUPPORTED_VIDEO_FORMATS = {}"
    by (rule formats_disjoint)
next
  show "\<not> (is_image E s = Inr True \<and> is_video E s = Inr True)"
    using formats_disjoint
    by (auto simp: is_image_def is_video_def split: sum.splits)
next
  fix k
  assume "media_type_of E ct tp u f = Inr k"
  then show "\<exists>a b. is_image_type E ct tp u f = Inr a \<and> is_video_type E ct tp u f = Inr b \<and>
         (k = IMAGE \<longleftrightarrow> a) \<and> (k = VIDEO \<longleftrightarrow> \<not> a \<and> b) \<and> (k = DOCUMENT \<longleftrightarrow> \<not> a \<and> \<not> b)"
    by (auto simp: media_type_of_def split: sum.splits if_splits)
qed

text \<open>
  An example: a URL that ends in \<open>.jpg\<close> is an image and not a video, and a response
  for it that declares a video is still stored as an image, because the image test comes
  first.
\<close>

theorem image_and_video_exclusive_witness:
  "is_image example_env ''https://x.test/a.jpg'' = Inr True \<and>
   is_video example_env ''https://x.test/a.jpg'' = Inr False \<and>
   media_type_of example_env ''video/mp4'' ''/tmp/tmp.mp4'' ''https://x.test/a.jpg'' ''a.jpg'' =
     Inr IMAGE"
  using image_and_video_exclusive [of example_env "''https://x.test/a.jpg''" "''video/mp4''"
      "''/tmp/tmp.mp4''" "''https://x.test/a.jpg''" "''a.jpg''"]
  by (simp add: is_image_def is_video_def extension_of_def get_file_extension_from_url_def
      example_env_def example_urlparse_a_jpg string_defs format_defs path_defs
      media_type_of_def is_image_type_def is_video_type_def or_else_def)

subsection \<open>Display names\<close>

lemma path_suffix_has_dot: "path_suffix p \<noteq> [] \<Longrightarrow> CHR ''.'' \<in> set (path_name p)"
  by (simp add: path_suffix_def Let_def split: if_splits)

lemma lower_eq_Nil: "lower s = [] \<longleftrightarrow> s = []"
  by (simp add: lower_def)

lemma example_urlparse_dir:
  "example_urlparse ''https://x.test/dir/'' =
     Inr \<lparr>scheme = ''https'', netloc = ''x.test'', path = ''/dir/''\<rparr>"
  by (simp add: example_urlparse_def scheme_chars_def string_defs)

lemma example_urlparse_htaccess:
  "example_urlparse ''https://x.test/.htaccess'' =
     Inr \<lparr>scheme = ''https'', netloc = ''x.test'', path = ''/.htaccess''\<rparr>"
  by (simp add: example_urlparse_def scheme_chars_def string_defs)

text \<open>
  Claim C8, as amended. Let \<open>name\<close> be the last component of the unquoted path of the
  URL. When \<open>name\<close> is empty or contains no dot, the display name is \<open>media_\<close> followed
  by the first eight characters of the MD5 digest of the URL, a function of the URL alone;
  otherwise it is \<open>name\<close>. In particular a URL for which \<open>get_file_extension_from_url\<close>
  finds an extension keeps its own file name. (The test of the program is the presence
  of a dot, not of an extension: see the counterexample.)
\<close>

theorem display_name:
  assumes "urlparse E url = Inr p"
  shows "get_filename_from_url E url =
           Inr (if path_name (unquote E (path p)) = [] \<or>
                   CHR ''.'' \<notin> set (path_name (unquote E (path p)))
                then ''media_'' @ take 8 (md5_hexdigest E url)
                else path_name (unquote E (path p))) \<and>
         (\<forall>ext. get_file_extension_from_url E url = Inr ext \<and> ext \<noteq> [] \<longrightarrow>
            get_filename_from_url E url = Inr (path_name (unquote E (path p))))"
proof -
  let ?name = "path_name (unquote E (path p))"
  have first: "get_filename_from_url E url =
      Inr (if ?name = [] \<or> CHR ''.'' \<notin> set ?name
           then ''media_'' @ take 8 (md5_hexdigest E url) else ?name)"
    using assms by (simp add: get_filename_from_url_def Let_def)
  have second: "get_filename_from_url E url = Inr ?name"
    if "get_file_extension_from_url E url = Inr ext" and "ext \<noteq> []" for ext
  proof -
    from that assms have "path_suffix (unquote E (path p)) \<noteq> []"
      by (auto simp: get_file_extension_from_url_def lower_eq_Nil)
    then have "CHR ''.'' \<in> set ?name"
      by (rule path_suffix_has_dot)
    then have "?name \<noteq> []" by auto
    with \<open>CHR ''.'' \<in> set ?name\<close> first show ?thesis by simp
  qed
  from first second show ?thesis by blast
qed

text \<open>
  Two examples: a path that ends in \<open>a.jpg\<close> keeps that name, a path that ends in a
  directory gets a synthesized name.
\<close>

theorem display_name_witness:
  "get_filename_from_url example_env ''https://x.test/a.jpg'' = Inr ''a.jpg'' \<and>
   get_filename_from_url example_env ''https://x.test/dir/'' = Inr ''media_9e107d9d''"
  using display_name [of example_env "''https://x.test/a.jpg''"]
        display_name [of example_env "''https://x.test/dir/''"]
  by (simp add: example_env_def example_urlparse_a_jpg example_urlparse_dir path_defs)

text \<open>
  The claim as stated fails for a file name that has a dot and no extension: for
  \<open>.htaccess\<close> the program finds no extension, and still uses the file name.
\<close>

theorem display_name_counterexample:
  "get_file_extension_from_url example_env ''https://x.test/.htaccess'' = Inr [] \<and>
   get_filename_from_url example_env ''https://x.test/.htaccess'' = Inr ''.htaccess'' \<and>
   ''.htaccess'' \<noteq> ''media_'' @ take 8 (md5_hexdigest example_env ''https://x.test/.htaccess'')"
  by (simp add: get_file_extension_from_url_def get_filename_from_url_def example_env_def
      example_urlparse_htaccess path_defs string_defs)

subsection \<open>Invalid URLs\<close>

lemma example_urlparse_no_scheme:
  "example_urlparse ''x.test/a.jpg'' =
     Inr \<lparr>scheme = [], netloc = [], path = ''x.test/a.jpg''\<rparr>"
  by (simp add: example_urlparse_def scheme_chars_def string_defs)

text \<open>
  Claim C7. When \<open>urlparse\<close> raises, or finds no scheme or no host, \<open>validate_url\<close> is
  false and \<open>extract_media_from_url\<close> raises \<open>ValueError("Invalid URL format")\<close> with
  the world as it was: no network operation has been issued and no file written.
\<close>

theorem invalid_url_rejected:
  assumes "(\<exists>e. urlparse E url = Inl e) \<or>
           (\<exists>p. urlparse E url = Inr p \<and> (scheme p = [] \<or> netloc p = []))"
  shows "\<not> validate_url E url \<and>
         extract_media_from_url E url w = (Inl (ValueError Invalid_URL_format), w)"
proof -
  from assms have "\<not> validate_url E url"
    by (auto simp: validate_url_def)
  then show ?thesis
    by (simp add: extract_media_from_url_def)
qed

text \<open>An example: a URL without a scheme.\<close>

theorem invalid_url_rejected_witness:
  "extract_media_from_url example_env ''x.test/a.jpg'' empty_world =
     (Inl (ValueError Invalid_URL_format), \<lparr>net_log = [], files = []\<rparr>)"
  using invalid_url_rejected [of example_env "''x.test/a.jpg''" empty_world]
  by (simp add: example_env_def example_urlparse_no_scheme empty_world_def)

subsection \<open>The URLs of a message\<close>

lemma process_each_prefix: "prefix (snd (process_each P us)) us"
  by (induction us) (auto split: option.splits prod.splits)

lemma process_each_all: "\<forall>u \<in> set us. P u = None \<Longrightarrow> process_each P us = (None, us)"
  by (induction us) auto

lemma findall_example:
  "findall_urls ''see http://a.test/1 http://b.test/2 http://c.test/3 http://d.test/4'' =
     [''http://a.test/1'', ''http://b.test/2'', ''http://c.test/3'', ''http://d.test/4'']"
  by (simp add: match_url_at_def url_char_def dollar_to_underscore_def string_defs)

lemma validate_example:
  "validate_url example_env ''http://a.test/1'' \<and> validate_url example_env ''http://b.test/2'' \<and>
   validate_url example_env ''http://c.test/3'' \<and> validate_url example_env ''http://d.test/4''"
  by (simp add: validate_url_def example_env_def example_urlparse_def scheme_chars_def string_defs)

text \<open>
  Claim C9. The URLs that \<open>handle_url_message\<close> hands to \<open>_process_url\<close> are the
  first of the first three valid URLs of the stripped message, in their order: at most
  three, and exactly the first three (or all, when there are fewer) when no call of
  \<open>_process_url\<close> raises. A fourth URL is never processed.
\<close>

theorem at_most_three_urls:
  "prefix (snd (handle_url_message E P reply t)) (take 3 (extract_urls E (strip t))) \<and>
   length (snd (handle_url_message E P reply t)) \<le> 3 \<and>
   ((\<forall>u. P u = None) \<longrightarrow>
      snd (handle_url_message E P reply t) = take 3 (extract_urls E (strip t)))"
proof -
  let ?urls = "extract_urls E (strip t)"
  let ?called = "snd (handle_url_message E P reply t)"
  have called: "?called = (if ?urls = [] then [] else snd (process_each P (take 3 ?urls)))"
    by (simp add: handle_url_message_def Let_def)
  have pre: "prefix ?called (take 3 ?urls)"
    unfolding called using process_each_prefix [of P "take 3 ?urls"] by simp
  then have "length ?called \<le> length (take 3 ?urls)"
    by (rule prefix_length_le)
  then have len: "length ?called \<le> 3" by simp
  have all: "?called = take 3 ?urls" if "\<forall>u. P u = None"
    unfolding called using that process_each_all [of "take 3 ?urls" P] by simp
  from pre len all show ?thesis by blast
qed

text \<open>An example: a message with four URLs; the fourth is left out.\<close>

theorem at_most_three_urls_witness:
  "snd (handle_url_message example_env (\<lambda>u. None) None
          '' see http://a.test/1 http://b.test/2 http://c.test/3 http://d.test/4 '') =
     [''http://a.test/1'', ''http://b.test/2'', ''http://c.test/3'']"
proof -
  have stripped:
    "strip '' see http://a.test/1 http://b.test/2 http://c.test/3 http://d.test/4 '' =
       ''see http://a.test/1 http://b.test/2 http://c.test/3 http://d.test/4''"
    by (simp add: strip_def is_space_def)
  have urls:
    "extract_urls example_env
       ''see http://a.test/1 http://b.test/2 http://c.test/3 http://d.test/4'' =
     [''http://a.test/1'', ''http://b.test/2'', ''http://c.test/3'', ''http://d.test/4'']"
    unfolding extract_urls_def findall_example using validate_example by simp
  show ?thesis
    using at_most_three_urls [of example_env "\<lambda>u. None" None
      "'' see http://a.test/1 http://b.test/2 http://c.test/3 http://d.test/4 ''"]
    unfolding stripped urls by simp
qed

subsection \<open>The Direct Fetcher\<close>

lemma iter_content_loop_Inr:
  "iter_content_loop acc cs b = Inr c \<Longrightarrow> c = acc @ concat cs \<and> \<not> b"
proof (induction cs arbitrary: acc)
  case Nil
  then show ?case by (auto split: if_splits)
next
  case (Cons a cs)
  from Cons.prems have "iter_content_loop (acc @ a) cs b = Inr c"
    by (auto simp: Let_def split: if_splits)
  from Cons.IH [OF this] show ?case by simp
qed

lemma iter_content_loop_bound:
  "iter_content_loop acc cs b = Inr c \<Longrightarrow> length acc \<le> MAX_DOCUMENT_SIZE \<Longrightarrow>
     length c \<le> MAX_DOCUMENT_SIZE"
proof (induction cs arbitrary: acc)
  case Nil
  then show ?case by (auto split: if_splits)
next
  case (Cons a cs)
  from Cons.prems(1) have "iter_content_loop (acc @ a) cs b = Inr c"
    and "length (acc @ a) \<le> MAX_DOCUMENT_SIZE"
    by (auto simp: Let_def split: if_splits)
  then show ?case by (rule Cons.IH)
qed

lemma iter_content_loop_oversize:
  "length (acc @ concat cs) > MAX_DOCUMENT_SIZE \<Longrightarrow> length acc \<le> MAX_DOCUMENT_SIZE \<Longrightarrow>
     iter_content_loop acc cs b = Inl (ValueError File_too_large_during_download)"
proof (induction cs arbitrary: acc)
  case Nil
  then show ?case by simp
next
  case (Cons a cs)
  show ?case
  proof (cases "length (acc @ a) > MAX_DOCUMENT_SIZE")
    case True
    then show ?thesis by (simp add: Let_def)
  next
    case False
    with Cons.prems(1) have "iter_content_loop (acc @ a) cs b =
        Inl (ValueError File_too_large_during_download)"
      by (intro Cons.IH) auto
    with False show ?thesis by (simp add: Let_def)
  qed
qed

lemma receive_body_Inr:
  assumes "receive_body E url r = Inr (ext, content)"
  shows "content = concat (chunks r)" and "length content \<le> MAX_DOCUMENT_SIZE"
    and "extension_from_headers_or_url E r url = Inr ext"
proof -
  from assms have loop: "iter_content_loop [] (chunks r) (stream_broken r) = Inr content"
    and ext: "extension_from_headers_or_url E r url = Inr ext"
    by (auto simp: receive_body_def split: sum.splits)
  from loop show "content = concat (chunks r)"
    by (auto dest: iter_content_loop_Inr)
  from loop show "length content \<le> MAX_DOCUMENT_SIZE"
    by (auto dest: iter_content_loop_bound)
  from ext show "extension_from_headers_or_url E r url = Inr ext" .
qed

lemma receive_body_oversize:
  assumes "length (concat (chunks r)) > MAX_DOCUMENT_SIZE"
  shows "\<exists>e. receive_body E url r = Inl e"
    and "raise_for_status r = Inr () \<Longrightarrow> check_content_length r = Inr () \<Longrightarrow>
         extension_from_headers_or_url E r url = Inr x \<Longrightarrow>
         receive_body E url r = Inl (ValueError File_too_large_during_download)"
proof -
  from assms have loop: "iter_content_loop [] (chunks r) (stream_broken r) =
      Inl (ValueError File_too_large_during_download)"
    by (intro iter_content_loop_oversize) auto
  then show "\<exists>e. receive_body E url r = Inl e"
    by (auto simp: receive_body_def split: sum.splits)
  show "receive_body E url r = Inl (ValueError File_too_large_during_download)"
    if "raise_for_status r = Inr ()" "check_content_length r = Inr ()"
      "extension_from_headers_or_url E r url = Inr x"
    using that loop by (simp add: receive_body_def)
qed

lemma create_temp_file_files:
  "create_temp_file E content x w = (res, w') \<Longrightarrow>
     net_log w' = net_log w \<and>
     (case res of Inl e \<Rightarrow> files w' = files w | Inr p \<Rightarrow> files w' = files w @ [(p, content)])"
  by (auto simp: create_temp_file_def Let_def split: sum.splits)

lemma store_media_result:
  assumes "store_media E url r ext content w = (res, w')"
  shows "net_log w' = net_log w"
    and "files w' = files w \<or> (\<exists>p. files w' = files w @ [(p, content)])"
    and "\<And>ds. res = Inr ds \<Longrightarrow>
           \<exists>d. ds = [d] \<and> mi_url d = url \<and> mi_size d = length content \<and>
               files w' = files w @ [(mi_file_path d, content)]"
    and "looks_like_html (lowered_content_type r) content \<Longrightarrow>
           res = Inl (ValueError Downloaded_content_is_HTML) \<and> w' = w"
  using assms
  by (auto simp: store_media_def Let_def split: if_splits sum.splits prod.splits
      dest!: create_temp_file_files)

lemma download_direct_media_result:
  assumes "download_direct_media E u w = (res, w')"
  shows "net_log w' = net_log w @ [GET u]"
    and "files w' = files w \<or>
         (\<exists>p c. files w' = files w @ [(p, c)] \<and> length c \<le> MAX_DOCUMENT_SIZE)"
    and "\<And>ds. res = Inr ds \<Longrightarrow>
           \<exists>d. ds = [d] \<and> mi_url d = u \<and> mi_size d \<le> MAX_DOCUMENT_SIZE \<and>
               (\<exists>c. length c = mi_size d \<and> files w' = files w @ [(mi_file_path d, c)])"
    and "\<And>e. res = Inl e \<Longrightarrow> files w' = files w \<or> (\<exists>p c. files w' = files w @ [(p, c)])"
proof -
  let ?w1 = "issue (GET u) w"
  have w1: "net_log ?w1 = net_log w @ [GET u]" "files ?w1 = files w"
    by (simp_all add: issue_def)
  consider (fail) e where "http_get E u = Inl e" "res = Inl e" "w' = ?w1"
    | (nobody) r e where "http_get E u = Inr r" "receive_body E u r = Inl e" "res = Inl e" "w' = ?w1"
    | (stored) r ext content where "http_get E u = Inr r" "receive_body E u r = Inr (ext, content)"
        "store_media E u r ext content ?w1 = (res, w')"
    using assms by (auto simp: download_direct_media_def Let_def split: sum.splits prod.splits)
  then have all: "net_log w' = net_log w @ [GET u] \<and>
     (files w' = files w \<or> (\<exists>p c. files w' = files w @ [(p, c)] \<and> length c \<le> MAX_DOCUMENT_SIZE)) \<and>
     (\<forall>ds. res = Inr ds \<longrightarrow>
           (\<exists>d. ds = [d] \<and> mi_url d = u \<and> mi_size d \<le> MAX_DOCUMENT_SIZE \<and>
               (\<exists>c. length c = mi_size d \<and> files w' = files w @ [(mi_file_path d, c)])))"
  proof cases
    case fail
    then show ?thesis by (simp add: w1)
  next
    case nobody
    then show ?thesis by (simp add: w1)
  next
    case stored
    from receive_body_Inr(2) [OF stored(2)] have len: "length content \<le> MAX_DOCUMENT_SIZE" .
    from store_media_result(1) [OF stored(3)] have 1: "net_log w' = net_log w @ [GET u]"
      by (simp add: w1)
    from store_media_result(2) [OF stored(3)] len
    have 2: "files w' = files w \<or> (\<exists>p c. files w' = files w @ [(p, c)] \<and> length c \<le> MAX_DOCUMENT_SIZE)"
      by (auto simp: w1)
    have 3: "\<exists>d. ds = [d] \<and> mi_url d = u \<and> mi_size d \<le> MAX_DOCUMENT_SIZE \<and>
               (\<exists>c. length c = mi_size d \<and> files w' = files w @ [(mi_file_path d, c)])"
      if "res = Inr ds" for ds
      using store_media_result(3) [OF stored(3) that] len by (auto simp: w1)
    from 1 2 3 show ?thesis by blast
  qed
  from all show "net_log w' = net_log w @ [GET u]" by blast
  from all show "files w' = files w \<or>
         (\<exists>p c. files w' = files w @ [(p, c)] \<and> length c \<le> MAX_DOCUMENT_SIZE)" by blast
  from all show "\<And>ds. res = Inr ds \<Longrightarrow>
           \<exists>d. ds = [d] \<and> mi_url d = u \<and> mi_size d \<le> MAX_DOCUMENT_SIZE \<and>
               (\<exists>c. length c = mi_size d \<and> files w' = files w @ [(mi_file_path d, c)])" by blast
  from all show "\<And>e. res = Inl e \<Longrightarrow> files w' = files w \<or> (\<exists>p c. files w' = files w @ [(p, c)])"
    by blast
qed

lemma download_direct_media_no_body:
  assumes "http_get E u = Inr r" and "receive_body E u r = Inl e"
  shows "download_direct_media E u w = (Inl e, issue (GET u) w)"
  using assms by (simp add: download_direct_media_def Let_def)

lemma download_direct_media_html:
  assumes "http_get E u = Inr r" and "receive_body E u r = Inr (ext, content)"
    and "looks_like_html (lowered_content_type r) content"
  shows "download_direct_media E u w =
           (Inl (ValueError Downloaded_content_is_HTML), issue (GET u) w)"
proof -
  obtain res w' where sm: "store_media E u r ext content (issue (GET u) w) = (res, w')"
    by (cases "store_media E u r ext content (issue (GET u) w)")
  from store_media_result(4) [OF sm assms(3)] sm assms(1,2) show ?thesis
    by (simp add: download_direct_media_def Let_def)
qed

text \<open>
  Claim C1. Every file that a call of the Direct Fetcher leaves on disk was there before
  or holds at most \<open>MAX_DOCUMENT_SIZE\<close> bytes. When the body of the response is larger
  than \<open>MAX_DOCUMENT_SIZE\<close>, the call raises and the world afterwards is the world
  before plus the request: no temporary file has been created. When the download loop
  is reached (the status is no error, the declared length passes, the extension is
  found), the exception is \<open>ValueError("File too large during download")\<close>.
\<close>

theorem oversize_body_aborts:
  "(\<forall>p c. (p, c) \<in> set (files (snd (download_direct_media E url w))) \<longrightarrow>
           (p, c) \<in> set (files w) \<or> length c \<le> MAX_DOCUMENT_SIZE) \<and>
   (\<forall>r. http_get E url = Inr r \<and> MAX_DOCUMENT_SIZE < length (concat (chunks r)) \<longrightarrow>
      (\<exists>e. download_direct_media E url w = (Inl e, issue (GET url) w) \<and>
           (raise_for_status r = Inr () \<and> check_content_length r = Inr () \<and>
            (\<exists>x. extension_from_headers_or_url E r url = Inr x) \<longrightarrow>
              e = ValueError File_too_large_during_download)))"
proof (intro conjI allI impI)
  fix p c
  assume in_files: "(p, c) \<in> set (files (snd (download_direct_media E url w)))"
  obtain res w' where d: "download_direct_media E url w = (res, w')"
    by (cases "download_direct_media E url w")
  from download_direct_media_result(2) [OF d] in_files d
  show "(p, c) \<in> set (files w) \<or> length c \<le> MAX_DOCUMENT_SIZE"
    by auto
next
  fix r
  assume "http_get E url = Inr r \<and> MAX_DOCUMENT_SIZE < length (concat (chunks r))"
  then have get: "http_get E url = Inr r" and big: "MAX_DOCUMENT_SIZE < length (concat (chunks r))"
    by simp_all
  from receive_body_oversize(1) [OF big] obtain e where e: "receive_body E url r = Inl e"
    by blast
  have "e = ValueError File_too_large_during_download"
    if "raise_for_status r = Inr () \<and> check_content_length r = Inr () \<and>
        (\<exists>x. extension_from_headers_or_url E r url = Inr x)"
    using receive_body_oversize(2) [OF big, of E url] that e by auto
  with download_direct_media_no_body [OF get e]
  show "\<exists>e. download_direct_media E url w = (Inl e, issue (GET url) w) \<and>
           (raise_for_status r = Inr () \<and> check_content_length r = Inr () \<and>
            (\<exists>x. extension_from_headers_or_url E r url = Inr x) \<longrightarrow>
              e = ValueError File_too_large_during_download)"
    by blast
qed

text \<open>An example: a body of one byte more than the ceiling.\<close>

theorem oversize_body_aborts_witness:
  "download_direct_media oversize_env ''https://x.test/a.jpg'' empty_world =
     (Inl (ValueError File_too_large_during_download),
      \<lparr>net_log = [GET ''https://x.test/a.jpg''], files = []\<rparr>)"
proof -
  let ?r = "ok_response ''video/mp4'' [replicate 3221225473 (CHR ''a'')]"
  let ?u = "''https://x.test/a.jpg''"
  have get: "http_get oversize_env ?u = Inr ?r"
    by (simp add: oversize_env_def example_env_def)
  have big: "MAX_DOCUMENT_SIZE < length (concat (chunks ?r))"
    by (simp add: ok_response_def MAX_DOCUMENT_SIZE_def)
  have st: "raise_for_status ?r = Inr ()"
    by (simp add: raise_for_status_def ok_response_def)
  have cl: "check_content_length ?r = Inr ()"
    by (simp add: check_content_length_def ok_response_def)
  have ex: "extension_from_headers_or_url oversize_env ?r ?u = Inr ''.jpg''"
    by (simp add: extension_from_headers_or_url_def get_file_extension_from_content_type_def
        get_file_extension_from_url_def ok_response_def oversize_env_def example_env_def
        example_urlparse_a_jpg path_defs string_defs)
  from oversize_body_aborts [of oversize_env ?u empty_world] get big st cl ex
  have "download_direct_media oversize_env ?u empty_world =
      (Inl (ValueError File_too_large_during_download), issue (GET ?u) empty_world)"
    by blast
  then show ?thesis
    by (simp add: issue_def empty_world_def)
qed

text \<open>
  Claim C2, as amended. When the content type of the response starts with
  \<open>text/html\<close> (in any case of the letters) or \<open><html\<close> occurs in the first 1000 bytes
  of the body (in any case of the letters), the Direct Fetcher raises, returns no
  descriptor and creates no temporary file. The exception is
  \<open>ValueError("Downloaded content is HTML, not media")\<close> when the body has been received,
  that is when the status is no error, the size checks pass and the connection holds;
  otherwise it is the exception of the step that failed first.
\<close>

theorem html_is_not_media:
  assumes "http_get E url = Inr r"
    and "prefix ''text/html'' (lowered_content_type r) \<or>
         sublist ''<html'' (bytes_lower (take 1000 (concat (chunks r))))"
  shows "\<exists>e. download_direct_media E url w = (Inl e, issue (GET url) w) \<and>
             ((\<exists>x. receive_body E url r = Inr x) \<longrightarrow> e = ValueError Downloaded_content_is_HTML)"
proof (cases "receive_body E url r")
  case (Inl e)
  with download_direct_media_no_body [OF assms(1) Inl] show ?thesis by auto
next
  case (Inr x)
  obtain ext content where x: "x = (ext, content)" by (cases x)
  from Inr x have rb: "receive_body E url r = Inr (ext, content)" by simp
  from receive_body_Inr(1) [OF rb] assms(2)
  have "looks_like_html (lowered_content_type r) content"
    by (simp add: looks_like_html_def)
  from download_direct_media_html [OF assms(1) rb this] show ?thesis by auto
qed

text \<open>An example: an HTML page served with status 200.\<close>

theorem html_is_not_media_witness:
  "download_direct_media example_env ''https://x.test/page.html'' empty_world =
     (Inl (ValueError Downloaded_content_is_HTML),
      \<lparr>net_log = [GET ''https://x.test/page.html''], files = []\<rparr>)"
proof -
  let ?r = "ok_response ''text/html'' [''<html></html>'']"
  let ?u = "''https://x.test/page.html''"
  have get: "http_get example_env ?u = Inr ?r"
    by (simp add: example_env_def)
  have html: "prefix ''text/html'' (lowered_content_type ?r)"
    by (simp add: lowered_content_type_def ok_response_def string_defs)
  have rb: "receive_body example_env ?u ?r = Inr (''.html'', ''<html></html>'')"
    by (simp add: receive_body_def raise_for_status_def check_content_length_def
        extension_from_headers_or_url_def get_file_extension_from_content_type_def
        get_file_extension_from_url_def ok_response_def example_env_def
        example_urlparse_def scheme_chars_def path_defs string_defs MAX_DOCUMENT_SIZE_def)
  from html_is_not_media [of example_env ?u ?r empty_world] get html rb
  have "download_direct_media example_env ?u empty_world =
      (Inl (ValueError Downloaded_content_is_HTML), issue (GET ?u) empty_world)"
    by auto
  then show ?thesis
    by (simp add: issue_def empty_world_def)
qed

text \<open>
  The claim as stated fails for an HTML page served with an error status: the status is
  checked first, and the exception is the \<open>HTTPError\<close> of \<open>raise_for_status\<close>.
\<close>

theorem html_is_not_media_counterexample:
  "http_get not_found_env ''https://x.test/gone.jpg'' = Inr not_found_response \<and>
   prefix ''text/html'' (lowered_content_type not_found_response) \<and>
   sublist ''<html'' (bytes_lower (take 1000 (concat (chunks not_found_response)))) \<and>
   fst (download_direct_media not_found_env ''https://x.test/gone.jpg'' empty_world) =
     Inl (HTTPError 404) \<and>
   HTTPError 404 \<noteq> ValueError Downloaded_content_is_HTML"
  by (simp add: download_direct_media_def receive_body_def raise_for_status_def
      not_found_env_def not_found_response_def example_env_def lowered_content_type_def
      string_defs)

subsection \<open>The Page Scraper\<close>

lemma distinct_set_add: "distinct s \<Longrightarrow> distinct (set_add x s)"
  by (simp add: set_add_def)

lemma distinct_add_matches: "distinct s \<Longrightarrow> distinct (add_matches ms s)"
  by (induction ms arbitrary: s) (auto simp: Let_def distinct_set_add)

lemma distinct_scan_scripts: "distinct s \<Longrightarrow> distinct (scan_scripts E ss s)"
  by (induction ss arbitrary: s) (auto simp: Let_def distinct_add_matches split: option.splits)

lemma distinct_scan_imgs: "scan_imgs E url is s = Inr s' \<Longrightarrow> distinct s \<Longrightarrow> distinct s'"
proof (induction "is" arbitrary: s)
  case Nil
  then show ?case by simp
next
  case (Cons img rest)
  from Cons.prems obtain s1 where "scan_imgs E url rest s1 = Inr s'" and "distinct s1"
    by (auto simp: distinct_set_add split: if_splits sum.splits)
  then show ?case by (rule Cons.IH)
qed

lemma distinct_scan_links: "scan_links E url vs s = Inr s' \<Longrightarrow> distinct s \<Longrightarrow> distinct s'"
proof (induction vs arbitrary: s)
  case Nil
  then show ?case by simp
next
  case (Cons v rest)
  from Cons.prems obtain s1 where "scan_links E url rest s1 = Inr s'" and "distinct s1"
    by (auto simp: distinct_set_add split: if_splits sum.splits)
  then show ?case by (rule Cons.IH)
qed

lemma distinct_scan_og_image:
  assumes "scan_og_image E url og s = Inr s'" and "distinct s"
  shows "distinct s'"
proof (cases "\<exists>c. og = Some (Some c)")
  case True
  then obtain c where "og = Some (Some c)" by blast
  with assms(1) have "scan_links E url [c] s = Inr s'"
    by (simp add: scan_og_image_def)
  then show ?thesis using assms(2) by (rule distinct_scan_links)
next
  case False
  with assms(1) have "s' = s"
    by (auto simp: scan_og_image_def split: option.splits)
  with assms(2) show ?thesis by simp
qed

lemma subseq_distinct: "subseq xs ys \<Longrightarrow> distinct ys \<Longrightarrow> distinct xs"
  by (auto simp: subseq_conv_nths)

lemma distinct_collect_media_urls:
  assumes "collect_media_urls E url page = Inr s"
  shows "distinct s"
proof -
  let ?s0 = "if sublist ''google.com'' url \<and> sublist ''tbm=isch'' url
             then scan_scripts E (soup_scripts page) [] else []"
  have d0: "distinct ?s0" by (simp add: distinct_scan_scripts)
  from assms obtain s1 s2 s3 s4 s5 where
    "scan_imgs E url (soup_imgs page) ?s0 = Inr s1"
    "scan_links E url (soup_lazy_imgs page) s1 = Inr s2"
    "scan_links E url (soup_videos page) s2 = Inr s3"
    "scan_links E url (soup_sources page) s3 = Inr s4"
    "scan_links E url (soup_anchors page) s4 = Inr s5"
    "scan_og_image E url (soup_og_image page) s5 = Inr s"
    by (auto simp: collect_media_urls_def Let_def split: sum.splits)
  with d0 show ?thesis
    by (blast dest: distinct_scan_imgs distinct_scan_links distinct_scan_og_image)
qed

lemma download_all_result:
  "download_all E us acc w = (ds, w') \<Longrightarrow>
     net_log w' = net_log w @ map GET us \<and>
     (\<exists>vs. subseq vs us \<and> map mi_url ds = map mi_url acc @ vs)"
proof (induction us arbitrary: acc w)
  case Nil
  then show ?case by auto
next
  case (Cons u rest)
  obtain res w1 where d: "download_direct_media E u w = (res, w1)"
    by (cases "download_direct_media E u w")
  from download_direct_media_result(1) [OF d] have log1: "net_log w1 = net_log w @ [GET u]" .
  show ?case
  proof (cases res)
    case (Inl e)
    with d Cons.prems have "download_all E rest acc w1 = (ds, w')" by simp
    from Cons.IH [OF this] obtain vs where
      "net_log w' = net_log w1 @ map GET rest" "subseq vs rest" "map mi_url ds = map mi_url acc @ vs"
      by blast
    with log1 show ?thesis by auto
  next
    case (Inr media_files)
    from download_direct_media_result(3) [OF d Inr] obtain m where m: "media_files = [m]" "mi_url m = u"
      by blast
    from Inr d Cons.prems have "download_all E rest (acc @ media_files) w1 = (ds, w')" by simp
    from Cons.IH [OF this] obtain vs where
      "net_log w' = net_log w1 @ map GET rest" "subseq vs rest"
      "map mi_url ds = map mi_url (acc @ media_files) @ vs"
      by blast
    with log1 m have "net_log w' = net_log w @ map GET (u # rest)" "subseq (u # vs) (u # rest)"
      "map mi_url ds = map mi_url acc @ (u # vs)"
      by auto
    then show ?thesis by blast
  qed
qed

text \<open>
  Claim C5. Provided that iterating over a set yields no element twice, a call of the
  Page Scraper requests the page and then at most five candidates, no two of them the
  same; the descriptors it returns are at most five, and their \<open>url\<close> fields are a
  subsequence of the candidates, so no two descriptors have the same \<open>url\<close>.
\<close>

theorem scraper_at_most_five_distinct:
  assumes "\<And>s. distinct s \<Longrightarrow> distinct (set_iteration E s)"
    and "scrape_media_from_page E url w = (res, w')"
  shows "\<exists>cands. length cands \<le> 5 \<and> distinct cands \<and>
           net_log w' = net_log w @ GET url # map GET cands \<and>
           (\<forall>ds. res = Inr (Some ds) \<longrightarrow>
              subseq (map mi_url ds) cands \<and> length ds \<le> 5 \<and> distinct (map mi_url ds))"
proof -
  let ?w1 = "issue (GET url) w"
  have w1: "net_log ?w1 = net_log w @ [GET url]" by (simp add: issue_def)
  consider (nothing) "res = Inr None" "w' = ?w1"
    | (collected) html media_urls downloaded_media where
        "collect_media_urls E url (beautiful_soup E html) = Inr media_urls"
        "download_all E (take 5 (set_iteration E media_urls)) [] ?w1 = (downloaded_media, w')"
        "res = Inr (if downloaded_media \<noteq> [] then Some downloaded_media else None)"
    using assms(2)
    by (auto simp: scrape_media_from_page_def scrape_media_from_page_body_def Let_def
        split: sum.splits prod.splits)
  then show ?thesis
  proof cases
    case nothing
    then have "length ([]::string list) \<le> 5 \<and> distinct ([]::string list) \<and>
        net_log w' = net_log w @ GET url # map GET [] \<and>
        (\<forall>ds. res = Inr (Some ds) \<longrightarrow>
           subseq (map mi_url ds) [] \<and> length ds \<le> 5 \<and> distinct (map mi_url ds))"
      by (simp add: w1)
    then show ?thesis by blast
  next
    case collected
    let ?cands = "take 5 (set_iteration E media_urls)"
    from distinct_collect_media_urls [OF collected(1)] have "distinct (set_iteration E media_urls)"
      by (rule assms(1))
    then have dc: "distinct ?cands" by simp
    have lc: "length ?cands \<le> 5" by simp
    from download_all_result [OF collected(2)] obtain vs where
      log: "net_log w' = net_log ?w1 @ map GET ?cands" and
      sub: "subseq vs ?cands" and urls: "map mi_url downloaded_media = vs"
      by auto
    from sub dc have dv: "distinct vs" by (rule subseq_distinct)
    from sub have "length vs \<le> length ?cands" by (rule list_emb_length)
    with lc have lv: "length vs \<le> 5" by simp
    have "subseq (map mi_url ds) ?cands \<and> length ds \<le> 5 \<and> distinct (map mi_url ds)"
      if "res = Inr (Some ds)" for ds
    proof -
      from that collected(3) have "ds = downloaded_media" by (auto split: if_splits)
      with urls sub dv lv show ?thesis
        using length_map [of mi_url ds] by auto
    qed
    with lc dc log w1 have "length ?cands \<le> 5 \<and> distinct ?cands \<and>
        net_log w' = net_log w @ GET url # map GET ?cands \<and>
        (\<forall>ds. res = Inr (Some ds) \<longrightarrow>
           subseq (map mi_url ds) ?cands \<and> length ds \<le> 5 \<and> distinct (map mi_url ds))"
      by simp
    then show ?thesis by blast
  qed
qed

lemma store_media_eval:
  assumes "\<not> looks_like_html (lowered_content_type r) content"
    and "get_filename_from_url E u = Inr name"
    and "create_temp_file E content (Some (extension_for (lowered_content_type r) ext0)) w =
           (Inr temp_path, w')"
    and "media_type_of E (lowered_content_type r) temp_path u name = Inr k"
  shows "store_media E u r ext0 content w =
           (Inr [\<lparr>mi_file_path = temp_path, mi_filename = name, mi_size = length content,
                  mi_type = k, mi_url = u, mi_content_type = Some (lowered_content_type r),
                  mi_title = T_absent\<rparr>], w')"
  using assms by (simp add: store_media_def)

lemma download_direct_media_eval:
  assumes "http_get E u = Inr r" and "receive_body E u r = Inr (ext0, content)"
  shows "download_direct_media E u w = store_media E u r ext0 content (issue (GET u) w)"
  using assms by (simp add: download_direct_media_def)

lemmas receive_defs =
  receive_body_def raise_for_status_def check_content_length_def
  extension_from_headers_or_url_def get_file_extension_from_content_type_def
  get_file_extension_from_url_def ok_response_def MAX_DOCUMENT_SIZE_def

lemmas kind_defs =
  media_type_of_def is_image_type_def is_video_type_def or_else_def is_image_def is_video_def
  extension_of_def get_file_extension_from_url_def suffix_to_prefix

lemma example_download_c_png:
  "download_direct_media example_env ''https://x.test/c.png''
       \<lparr>net_log = [GET ''https://x.test/page.html''], files = []\<rparr> =
     (Inr [\<lparr>mi_file_path = ''/tmp/tmp.png'', mi_filename = ''c.png'', mi_size = 3,
            mi_type = IMAGE, mi_url = ''https://x.test/c.png'',
            mi_content_type = Some ''image/png'', mi_title = T_absent\<rparr>],
      \<lparr>net_log = [GET ''https://x.test/page.html'', GET ''https://x.test/c.png''],
       files = [(''/tmp/tmp.png'', ''PNG'')]\<rparr>)"
proof -
  let ?r = "ok_response ''image/png'' [''PNG'']"
  let ?u = "''https://x.test/c.png''"
  let ?w = "\<lparr>net_log = [GET ''https://x.test/page.html''], files = []\<rparr>"
  let ?w' = "\<lparr>net_log = [GET ''https://x.test/page.html'', GET ?u],
              files = [(''/tmp/tmp.png'', ''PNG'')]\<rparr>"
  have get: "http_get example_env ?u = Inr ?r"
    by (simp add: example_env_sel)
  have body: "receive_body example_env ?u ?r = Inr (''.png'', ''PNG'')"
    by (simp add: receive_defs example_env_sel string_defs)
  have ct: "lowered_content_type ?r = ''image/png''"
    by (simp add: lowered_content_type_def ok_response_def string_defs)
  have html: "\<not> looks_like_html ''image/png'' ''PNG''"
    by (simp add: looks_like_html_def string_defs sublist_Cons_right)
  have name: "get_filename_from_url example_env ?u = Inr ''c.png''"
    by (simp add: get_filename_from_url_def example_env_sel example_urlparse_c_png path_defs)
  have ext: "extension_for ''image/png'' ''.png'' = ''.png''"
    by (simp add: extension_for_def sublist_Cons_right)
  have temp: "create_temp_file example_env ''PNG'' (Some ''.png'') (issue (GET ?u) ?w) =
      (Inr ''/tmp/tmp.png'', ?w')"
    by (simp add: create_temp_file_def issue_def example_env_sel Let_def)
  have kind: "media_type_of example_env ''image/png'' ''/tmp/tmp.png'' ?u ''c.png'' = Inr IMAGE"
    by (simp add: kind_defs example_env_sel example_urlparse_c_png path_defs string_defs
        format_defs)
  show ?thesis
    using store_media_eval [of ?r "''PNG''" example_env ?u "''c.png''" "''.png''"
        "issue (GET ?u) ?w" "''/tmp/tmp.png''" ?w' IMAGE]
    by (simp add: download_direct_media_eval [OF get body] ct html name ext temp kind)
qed


lemma example_download_a_jpg:
  "download_direct_media example_env ''https://x.test/a.jpg''
       \<lparr>net_log = [GET ''https://x.test/page.html'', GET ''https://x.test/c.png''],
        files = [(''/tmp/tmp.png'', ''PNG'')]\<rparr> =
     (Inr [\<lparr>mi_file_path = ''/tmp/tmpa.jpg'', mi_filename = ''a.jpg'', mi_size = 8,
            mi_type = IMAGE, mi_url = ''https://x.test/a.jpg'',
            mi_content_type = Some ''image/jpeg'', mi_title = T_absent\<rparr>],
      \<lparr>net_log = [GET ''https://x.test/page.html'', GET ''https://x.test/c.png'',
                  GET ''https://x.test/a.jpg''],
       files = [(''/tmp/tmp.png'', ''PNG''), (''/tmp/tmpa.jpg'', ''JFIFdata'')]\<rparr>)"
proof -
  let ?r = "ok_response ''image/jpeg'' [''JFIF'', ''data'']"
  let ?u = "''https://x.test/a.jpg''"
  let ?w = "\<lparr>net_log = [GET ''https://x.test/page.html'', GET ''https://x.test/c.png''],
             files = [(''/tmp/tmp.png'', ''PNG'')]\<rparr>"
  let ?w' = "\<lparr>net_log = [GET ''https://x.test/page.html'', GET ''https://x.test/c.png'', GET ?u],
              files = [(''/tmp/tmp.png'', ''PNG''), (''/tmp/tmpa.jpg'', ''JFIFdata'')]\<rparr>"
  have get: "http_get example_env ?u = Inr ?r"
    by (simp add: example_env_sel)
  have body: "receive_body example_env ?u ?r = Inr (''.jpg'', ''JFIFdata'')"
    by (simp add: receive_defs example_env_sel string_defs)
  have ct: "lowered_content_type ?r = ''image/jpeg''"
    by (simp add: lowered_content_type_def ok_response_def string_defs)
  have html: "\<not> looks_like_html ''image/jpeg'' ''JFIFdata''"
    by (simp add: looks_like_html_def string_defs sublist_Cons_right)
  have name: "get_filename_from_url example_env ?u = Inr ''a.jpg''"
    by (simp add: get_filename_from_url_def example_env_sel example_urlparse_a_jpg path_defs)
  have ext: "extension_for ''image/jpeg'' ''.jpg'' = ''.jpg''"
    by (simp add: extension_for_def sublist_Cons_right)
  have temp: "create_temp_file example_env ''JFIFdata'' (Some ''.jpg'') (issue (GET ?u) ?w) =
      (Inr ''/tmp/tmpa.jpg'', ?w')"
    by (simp add: create_temp_file_def issue_def example_env_sel Let_def)
  have kind: "media_type_of example_env ''image/jpeg'' ''/tmp/tmpa.jpg'' ?u ''a.jpg'' = Inr IMAGE"
    by (simp add: kind_defs example_env_sel example_urlparse_a_jpg path_defs string_defs
        format_defs)
  show ?thesis
    using store_media_eval [of ?r "''JFIFdata''" example_env ?u "''a.jpg''" "''.jpg''"
        "issue (GET ?u) ?w" "''/tmp/tmpa.jpg''" ?w' IMAGE]
    by (simp add: download_direct_media_eval [OF get body] ct html name ext temp kind)
qed

lemma example_collect:
  "collect_media_urls example_env ''https://x.test/page.html'' (beautiful_soup example_env h) =
     Inr [''https://x.test/a.jpg'', ''https://x.test/c.png'']"
  by (simp add: collect_media_urls_def scan_og_image_def too_small_def py_int_def int_strip_def
      is_int_space_def parse_nat_def digit_val_def set_add_def is_supported_media_def extension_of_def
      get_file_extension_from_url_def example_env_sel example_soup example_urlparse_a_jpg
      example_urlparse_c_png example_urlparse_b_png path_defs string_defs format_defs
      sublist_Cons_right)

lemma example_fetch_page:
  "fetch_page example_env ''https://x.test/page.html'' = Inr ''<html></html>''"
  by (simp add: fetch_page_def raise_for_status_def ok_response_def example_env_sel)

lemma example_scrape:
  "scrape_media_from_page example_env ''https://x.test/page.html'' empty_world =
     (Inr (Some [\<lparr>mi_file_path = ''/tmp/tmp.png'', mi_filename = ''c.png'', mi_size = 3,
            mi_type = IMAGE, mi_url = ''https://x.test/c.png'',
            mi_content_type = Some ''image/png'', mi_title = T_absent\<rparr>,
           \<lparr>mi_file_path = ''/tmp/tmpa.jpg'', mi_filename = ''a.jpg'', mi_size = 8,
            mi_type = IMAGE, mi_url = ''https://x.test/a.jpg'',
            mi_content_type = Some ''image/jpeg'', mi_title = T_absent\<rparr>]),
      \<lparr>net_log = [GET ''https://x.test/page.html'', GET ''https://x.test/c.png'',
                  GET ''https://x.test/a.jpg''],
       files = [(''/tmp/tmp.png'', ''PNG''), (''/tmp/tmpa.jpg'', ''JFIFdata'')]\<rparr>)"
  by (simp add: scrape_media_from_page_def scrape_media_from_page_body_def example_fetch_page
      example_collect example_env_sel issue_def empty_world_def
      example_download_c_png example_download_a_jpg)

text \<open>
  An example: the page of the example environment has a small image, which is left out,
  an image named twice and an Open Graph image; two descriptors come back.
\<close>

theorem scraper_at_most_five_distinct_witness:
  "\<exists>ds w'. scrape_media_from_page example_env ''https://x.test/page.html'' empty_world =
             (Inr (Some ds), w') \<and>
           map mi_url ds = [''https://x.test/c.png'', ''https://x.test/a.jpg''] \<and>
           length ds \<le> 5 \<and> distinct (map mi_url ds)"
  using scraper_at_most_five_distinct [of example_env "''https://x.test/page.html''" empty_world,
      OF _ example_scrape]
  by (simp add: example_scrape example_env_sel)

subsection \<open>A page that cannot be fetched\<close>

lemma scrape_never_raises: "fst (scrape_media_from_page E u w) \<noteq> Inl e"
  by (simp add: scrape_media_from_page_def split: prod.splits sum.splits)

text \<open>
  Claim C4, as amended. When the request for the page fails, the Page Scraper does not
  raise: the handler of the method catches the exception, and the method returns
  \<open>None\<close> after that one request. Its caller then finds nothing and raises
  \<open>ValueError("No supported media found on this URL")\<close>; the exception of the request
  is lost.
\<close>

theorem page_fetch_failure_gives_nothing:
  assumes "fetch_page E url = Inl e"
  shows "scrape_media_from_page E url w = (Inr None, issue (GET url) w) \<and>
         (validate_url E url \<and> is_direct_media_url E url w0 = (Inr False, w1) \<and>
          extract_with_ytdlp E url w1 = (None, w) \<longrightarrow>
            extract_media_from_url E url w0 =
              (Inl (ValueError No_supported_media_found), issue (GET url) w))"
proof -
  from assms have scrape: "scrape_media_from_page E url w = (Inr None, issue (GET url) w)"
    by (simp add: scrape_media_from_page_def scrape_media_from_page_body_def Let_def)
  then show ?thesis
    by (simp add: extract_media_from_url_def found_def)
qed

lemma example_fetch_none: "fetch_page example_env ''https://x.test/none.html'' = Inl RequestException"
  by (simp add: fetch_page_def example_env_sel)

text \<open>An example: a page whose request fails.\<close>

theorem page_fetch_failure_gives_nothing_witness:
  "scrape_media_from_page example_env ''https://x.test/none.html'' empty_world =
     (Inr None, \<lparr>net_log = [GET ''https://x.test/none.html''], files = []\<rparr>)"
  using page_fetch_failure_gives_nothing [of example_env "''https://x.test/none.html''"
      RequestException empty_world, OF example_fetch_none]
  by (simp add: issue_def empty_world_def)

text \<open>
  The claim as stated fails on the same example: the request raises, and the result of
  the scraper is \<open>None\<close>, not the exception.
\<close>

theorem page_fetch_failure_counterexample:
  "http_get example_env ''https://x.test/none.html'' = Inl RequestException \<and>
   fst (scrape_media_from_page example_env ''https://x.test/none.html'' empty_world) = Inr None \<and>
   fst (scrape_media_from_page example_env ''https://x.test/none.html'' empty_world) \<noteq>
     Inl RequestException"
  by (simp add: scrape_media_from_page_def scrape_media_from_page_body_def example_fetch_none
      example_env_sel Let_def)

subsection \<open>The selection of a rendition\<close>

lemma quality_gt_number:
  "fmt_quality f \<noteq> Q_None \<Longrightarrow> fmt_quality b \<noteq> Q_None \<Longrightarrow>
     quality_gt f b = Inr (quality_number f > quality_number b)"
  by (cases "fmt_quality f"; cases "fmt_quality b")
     (simp_all add: quality_gt_def quality_value_def quality_number_def)

lemma quality_gt_None:
  "fmt_quality f = Q_None \<or> fmt_quality b = Q_None \<Longrightarrow> quality_gt f b = Inl TypeError"
  by (cases "fmt_quality f"; cases "fmt_quality b")
     (simp_all add: quality_gt_def quality_value_def)

lemma best_within_limit_spec:
  assumes "\<forall>f \<in> set fs. within_limit f \<longrightarrow> fmt_quality f \<noteq> Q_None"
    and "\<forall>a. acc = Some a \<longrightarrow> fmt_quality a \<noteq> Q_None"
  shows "\<exists>r. best_within_limit fs acc = Inr r \<and>
           (r = None \<longleftrightarrow> acc = None \<and> (\<forall>f \<in> set fs. \<not> within_limit f)) \<and>
           (\<forall>b. r = Some b \<longrightarrow>
              (acc = Some b \<or> (b \<in> set fs \<and> within_limit b)) \<and>
              fmt_quality b \<noteq> Q_None \<and>
              (\<forall>f \<in> set fs. within_limit f \<longrightarrow> quality_number f \<le> quality_number b) \<and>
              (\<forall>a. acc = Some a \<longrightarrow> quality_number a \<le> quality_number b))"
  using assms
proof (induction fs arbitrary: acc)
  case Nil
  then show ?case by auto
next
  case (Cons fmt rest)
  have rest_ok: "\<forall>f \<in> set rest. within_limit f \<longrightarrow> fmt_quality f \<noteq> Q_None"
    using Cons.prems(1) by simp
  show ?case
  proof (cases "within_limit fmt")
    case False
    from Cons.IH [OF rest_ok Cons.prems(2)] False show ?thesis
      by auto
  next
    case True
    with Cons.prems(1) have qf: "fmt_quality fmt \<noteq> Q_None" by simp
    show ?thesis
    proof (cases acc)
      case None
      have "\<forall>a. Some fmt = Some a \<longrightarrow> fmt_quality a \<noteq> Q_None" using qf by simp
      from Cons.IH [OF rest_ok this] True None show ?thesis
        by auto
    next
      case (Some a)
      with Cons.prems(2) have qa: "fmt_quality a \<noteq> Q_None" by simp
      note gt = quality_gt_number [OF qf qa]
      show ?thesis
      proof (cases "quality_number fmt > quality_number a")
        case better: True
        have "\<forall>x. Some fmt = Some x \<longrightarrow> fmt_quality x \<noteq> Q_None" using qf by simp
        from Cons.IH [OF rest_ok this] True Some gt better show ?thesis
          by (auto simp: less_imp_le order_trans [OF less_imp_le])
      next
        case worse: False
        from Cons.IH [OF rest_ok Cons.prems(2)] True Some gt worse show ?thesis
          by (auto simp: not_less intro: order_trans)
      qed
    qed
  qed
qed

lemma best_within_limit_none:
  "\<forall>f \<in> set fs. \<not> within_limit f \<Longrightarrow> best_within_limit fs acc = Inr acc"
  by (induction fs arbitrary: acc) auto

text \<open>
  What the loop of lines 183 to 187 computes when the quality of every rendition within
  the budget is a number or missing. For a list of renditions that is not empty: when no
  rendition is within the budget for videos (its declared size, or else its approximate
  size, is known and at most \<open>MAX_VIDEO_SIZE\<close>), the selection is the first rendition of
  the list; when some rendition is within the budget, the selection is a rendition within
  the budget whose quality is at least that of every rendition within the budget.
\<close>

lemma select_format_numbers:
  assumes "formats \<noteq> []"
  shows "((\<forall>f \<in> set formats. \<not> within_limit f) \<longrightarrow>
            select_format formats = Inr (Some (hd formats))) \<and>
         ((\<exists>f \<in> set formats. within_limit f) \<and>
          (\<forall>f \<in> set formats. within_limit f \<longrightarrow> fmt_quality f \<noteq> Q_None) \<longrightarrow>
            (\<exists>b. select_format formats = Inr (Some b) \<and> b \<in> set formats \<and> within_limit b \<and>
                 (\<forall>f \<in> set formats. within_limit f \<longrightarrow> quality_number f \<le> quality_number b)))"
proof (intro conjI impI)
  assume none: "\<forall>f \<in> set formats. \<not> within_limit f"
  from assms obtain f rest where "formats = f # rest" by (cases formats) auto
  with best_within_limit_none [OF none, of None]
  show "select_format formats = Inr (Some (hd formats))"
    by (simp add: select_format_def)
next
  assume some: "(\<exists>f \<in> set formats. within_limit f) \<and>
      (\<forall>f \<in> set formats. within_limit f \<longrightarrow> fmt_quality f \<noteq> Q_None)"
  then have num: "\<forall>f \<in> set formats. within_limit f \<longrightarrow> fmt_quality f \<noteq> Q_None"
    by simp
  have "\<forall>a. (None :: ydl_format option) = Some a \<longrightarrow> fmt_quality a \<noteq> Q_None" by simp
  from best_within_limit_spec [OF num this] obtain r where
    r: "best_within_limit formats None = Inr r"
    and r_none: "r = None \<longleftrightarrow> (\<forall>f \<in> set formats. \<not> within_limit f)"
    and r_some: "\<forall>b. r = Some b \<longrightarrow> b \<in> set formats \<and> within_limit b \<and>
        (\<forall>f \<in> set formats. within_limit f \<longrightarrow> quality_number f \<le> quality_number b)"
    by auto
  from some r_none obtain b where b: "r = Some b" by (cases r) auto
  with r have "select_format formats = Inr (Some b)"
    by (simp add: select_format_def)
  with r_some b
  show "\<exists>b. select_format formats = Inr (Some b) \<and> b \<in> set formats \<and> within_limit b \<and>
      (\<forall>f \<in> set formats. within_limit f \<longrightarrow> quality_number f \<le> quality_number b)"
    by blast
qed

lemma example_within_limit:
  "\<not> within_limit huge_1080p" "\<not> within_limit huge_720p"
  "within_limit small_480p" "within_limit small_240p" "within_limit small_hls"
  by (simp_all add: within_limit_def format_filesize_def huge_1080p_def huge_720p_def
      small_480p_def small_240p_def small_hls_def rendition_def MAX_VIDEO_SIZE_def)

lemma example_quality:
  "fmt_quality small_480p = Q_num 1" "fmt_quality small_240p = Q_absent"
  "fmt_quality small_hls = Q_None"
  "quality_number small_480p = 1" "quality_number small_240p = 0"
  by (simp_all add: quality_number_def small_480p_def small_240p_def small_hls_def
      rendition_def)

lemma example_renditions_differ:
  "small_480p \<noteq> huge_1080p" "small_480p \<noteq> huge_720p" "small_480p \<noteq> small_240p"
  "small_240p \<noteq> huge_1080p" "small_240p \<noteq> huge_720p"
  by (simp_all add: huge_1080p_def huge_720p_def small_480p_def small_240p_def rendition_def)

text \<open>
  Two examples: both renditions too large, so the first is taken; and two renditions
  within the budget, of which the one of higher quality is taken.
\<close>

lemma example_selections:
  "select_format [huge_720p, huge_1080p] = Inr (Some huge_720p)"
  "select_format [huge_1080p, small_240p, small_480p, huge_720p] = Inr (Some small_480p)"
proof -
  show "select_format [huge_720p, huge_1080p] = Inr (Some huge_720p)"
    using select_format_numbers [of "[huge_720p, huge_1080p]"]
    by (simp add: example_within_limit)
  show "select_format [huge_1080p, small_240p, small_480p, huge_720p] =
      Inr (Some small_480p)"
    using select_format_numbers [of "[huge_1080p, small_240p, small_480p, huge_720p]"]
    by (auto simp: example_within_limit example_quality example_renditions_differ)
qed

text \<open>
  When the loop raises. Every rendition within the budget after the first is compared
  with the best so far, and the comparison raises \<open>TypeError\<close> as soon as one of the two
  has the quality \<open>None\<close>: so the loop raises exactly when at least two renditions are
  within the budget and one of the renditions within the budget has the quality \<open>None\<close>.
\<close>

lemma best_within_limit_error:
  "best_within_limit fs acc = Inl e \<Longrightarrow> e = TypeError"
proof (induction fs arbitrary: acc)
  case Nil
  then show ?case by simp
next
  case (Cons fmt rest)
  show ?case
  proof (cases "within_limit fmt")
    case False
    with Cons.prems have "best_within_limit rest acc = Inl e" by simp
    from Cons.IH [OF this] show ?thesis .
  next
    case True
    show ?thesis
    proof (cases acc)
      case None
      with True Cons.prems have "best_within_limit rest (Some fmt) = Inl e" by simp
      from Cons.IH [OF this] show ?thesis .
    next
      case (Some b)
      show ?thesis
      proof (cases "quality_gt fmt b")
        case (Inl x)
        then have "x = TypeError"
          by (auto simp: quality_gt_def split: option.splits)
        with Inl True Some Cons.prems show ?thesis by simp
      next
        case (Inr better)
        with True Some Cons.prems
        have "best_within_limit rest (if better then Some fmt else acc) = Inl e"
          by (cases better) simp_all
        from Cons.IH [OF this] show ?thesis .
      qed
    qed
  qed
qed

lemma best_within_limit_raises_from:
  "best_within_limit fs (Some a) = Inl TypeError \<longleftrightarrow>
     (\<exists>f \<in> set fs. within_limit f) \<and>
     (fmt_quality a = Q_None \<or> (\<exists>f \<in> set fs. within_limit f \<and> fmt_quality f = Q_None))"
proof (induction fs arbitrary: a)
  case Nil
  show ?case by simp
next
  case (Cons fmt rest)
  show ?case
  proof (cases "within_limit fmt")
    case False
    then show ?thesis using Cons.IH [of a] by auto
  next
    case True
    show ?thesis
    proof (cases "fmt_quality fmt = Q_None \<or> fmt_quality a = Q_None")
      case raises: True
      from quality_gt_None [OF this] True raises show ?thesis by auto
    next
      case False
      then have qf: "fmt_quality fmt \<noteq> Q_None" and qa: "fmt_quality a \<noteq> Q_None" by simp_all
      note gt = quality_gt_number [OF qf qa]
      show ?thesis
      proof (cases "quality_number fmt > quality_number a")
        case better: True
        with True gt Cons.IH [of fmt] qf qa show ?thesis by auto
      next
        case worse: False
        with True gt Cons.IH [of a] qf qa show ?thesis by auto
      qed
    qed
  qed
qed

lemma best_within_limit_raises:
  "best_within_limit fs None = Inl TypeError \<longleftrightarrow>
     2 \<le> length (filter within_limit fs) \<and>
     (\<exists>f \<in> set fs. within_limit f \<and> fmt_quality f = Q_None)"
proof (induction fs)
  case Nil
  show ?case by simp
next
  case (Cons fmt rest)
  show ?case
  proof (cases "within_limit fmt")
    case False
    then show ?thesis using Cons.IH by auto
  next
    case True
    have "(\<exists>f \<in> set rest. within_limit f) \<longleftrightarrow> 1 \<le> length (filter within_limit rest)"
      by (induction rest) auto
    with True best_within_limit_raises_from [of rest fmt] show ?thesis by auto
  qed
qed

lemma select_format_raises:
  "select_format formats = Inl TypeError \<longleftrightarrow>
     2 \<le> length (filter within_limit formats) \<and>
     (\<exists>f \<in> set formats. within_limit f \<and> fmt_quality f = Q_None)"
proof -
  have "select_format formats = Inl TypeError \<longleftrightarrow>
      best_within_limit formats None = Inl TypeError"
    by (auto simp: select_format_def split: sum.splits option.splits)
  then show ?thesis by (simp add: best_within_limit_raises)
qed

text \<open>
  The download does not depend on the renditions: neither the files the engine leaves nor
  the descriptors made of them read the list \<open>formats\<close> or the selection.
\<close>

lemma extension_of_extract_info [simp]:
  "extension_of (E\<lparr>ydl_extract_info := g\<rparr>) p = extension_of E p"
  by (simp add: extension_of_def get_file_extension_from_url_def split: sum.splits)

lemma downloaded_files_formats:
  "downloaded_files (E\<lparr>ydl_extract_info := g\<rparr>) url (v\<lparr>info_formats := fs\<rparr>) d produced =
     downloaded_files E url v d produced"
  by (induction produced)
     (auto simp: is_supported_media_def is_video_def Let_def split: sum.splits bool.splits)

lemma ytdlp_download_formats:
  "ytdlp_download (E\<lparr>ydl_extract_info := g\<rparr>) url (v\<lparr>info_formats := fs\<rparr>) w =
     ytdlp_download E url v w"
  by (simp add: ytdlp_download_def downloaded_files_formats Let_def split: sum.splits)

lemma extract_with_ytdlp_selected:
  assumes "ydl_extract_info E url = Inr (Some (Single v))"
    and "select_format (info_formats v) = Inr (Some best_format)"
  shows "extract_with_ytdlp_body E url w = ytdlp_download E url v (issue (EXTRACT_INFO url) w)"
proof -
  from assms(2) have "info_formats v \<noteq> []"
    by (auto simp: select_format_def)
  with assms show ?thesis
    by (simp add: extract_with_ytdlp_body_def first_video_def Let_def)
qed

text \<open>
  Claim C6 (the code departs from it). The claim has the Platform Extractor take the
  rendition of highest quality among those within the budget, and the first rendition
  rather than nothing when none is within the budget. The code does not:

  \<^item> when the engine offers at least two renditions within the budget and one of the
    renditions within the budget has the quality \<open>None\<close>, the selection raises
    \<open>TypeError\<close>, and the extractor yields no result after the one request for the
    renditions, without any download;

  \<^item> when a rendition is selected, the selection has no effect: with any other list of
    renditions for which a rendition is selected, the extractor does the same and gives
    the same result, because the download is not told which rendition was selected.
\<close>

theorem selection_raises_or_is_unused:
  "(ydl_extract_info E url = Inr (Some (Single v)) \<and>
    2 \<le> length (filter within_limit (info_formats v)) \<and>
    (\<exists>f \<in> set (info_formats v). within_limit f \<and> fmt_quality f = Q_None) \<longrightarrow>
      select_format (info_formats v) = Inl TypeError \<and>
      extract_with_ytdlp E url w = (None, issue (EXTRACT_INFO url) w)) \<and>
   (ydl_extract_info E url = Inr (Some (Single v)) \<and>
    select_format (info_formats v) = Inr (Some best_format) \<and>
    select_format formats' = Inr (Some best_format') \<longrightarrow>
      extract_with_ytdlp
        (E\<lparr>ydl_extract_info := (\<lambda>u. Inr (Some (Single (v\<lparr>info_formats := formats'\<rparr>))))\<rparr>)
        url w =
      extract_with_ytdlp E url w)"
proof (intro conjI impI)
  assume a: "ydl_extract_info E url = Inr (Some (Single v)) \<and>
    2 \<le> length (filter within_limit (info_formats v)) \<and>
    (\<exists>f \<in> set (info_formats v). within_limit f \<and> fmt_quality f = Q_None)"
  then have raises: "select_format (info_formats v) = Inl TypeError"
    by (simp add: select_format_raises)
  then show "select_format (info_formats v) = Inl TypeError" .
  from a have "info_formats v \<noteq> []" by auto
  with a raises show "extract_with_ytdlp E url w = (None, issue (EXTRACT_INFO url) w)"
    by (simp add: extract_with_ytdlp_def extract_with_ytdlp_body_def first_video_def Let_def)
next
  let ?E' = "E\<lparr>ydl_extract_info := (\<lambda>u. Inr (Some (Single (v\<lparr>info_formats := formats'\<rparr>))))\<rparr>"
  assume a: "ydl_extract_info E url = Inr (Some (Single v)) \<and>
    select_format (info_formats v) = Inr (Some best_format) \<and>
    select_format formats' = Inr (Some best_format')"
  have "ydl_extract_info ?E' url = Inr (Some (Single (v\<lparr>info_formats := formats'\<rparr>)))"
    by simp
  moreover have "select_format (info_formats (v\<lparr>info_formats := formats'\<rparr>)) =
      Inr (Some best_format')"
    using a by simp
  ultimately have "extract_with_ytdlp_body ?E' url w =
      ytdlp_download ?E' url (v\<lparr>info_formats := formats'\<rparr>) (issue (EXTRACT_INFO url) w)"
    by (rule extract_with_ytdlp_selected)
  also have "\<dots> = ytdlp_download E url v (issue (EXTRACT_INFO url) w)"
    by (rule ytdlp_download_formats)
  also have "\<dots> = extract_with_ytdlp_body E url w"
    using a by (simp add: extract_with_ytdlp_selected)
  finally show "extract_with_ytdlp ?E' url w = extract_with_ytdlp E url w"
    by (simp add: extract_with_ytdlp_def)
qed

text \<open>
  The two parts at examples. The engine offers the rendition \<open>480p\<close> of quality 1 and
  the rendition \<open>hls\<close> of quality \<open>None\<close>, both within the budget: the selection raises
  and the extractor yields nothing, where the claim has it take a rendition. And the
  extractor gives the same for the renditions \<open>240p\<close> and \<open>480p\<close>, where \<open>480p\<close> is
  selected, as for two renditions above the budget, where the first of them is selected.
\<close>

lemma video_env_sel:
  "ydl_extract_info (video_env formats) u = Inr (Some (Single (clip formats)))"
  "info_formats (clip formats) = formats"
  "video_env formats\<lparr>ydl_extract_info :=
     (\<lambda>u. Inr (Some (Single (clip formats\<lparr>info_formats := formats'\<rparr>))))\<rparr> = video_env formats'"
  by (simp_all add: video_env_def clip_def)

theorem selection_raises_or_is_unused_witness:
  "within_limit small_480p \<and> within_limit small_hls \<and>
   select_format [small_480p, small_hls] = Inl TypeError \<and>
   extract_with_ytdlp (video_env [small_480p, small_hls]) ''https://x.test/watch'' empty_world =
     (None, \<lparr>net_log = [EXTRACT_INFO ''https://x.test/watch''], files = []\<rparr>) \<and>
   select_format [small_240p, small_480p] = Inr (Some small_480p) \<and>
   select_format [huge_720p, huge_1080p] = Inr (Some huge_720p) \<and>
   extract_with_ytdlp (video_env [huge_720p, huge_1080p]) ''https://x.test/watch'' empty_world =
     extract_with_ytdlp (video_env [small_240p, small_480p]) ''https://x.test/watch''
       empty_world"
proof -
  have small: "select_format [small_240p, small_480p] = Inr (Some small_480p)"
    using select_format_numbers [of "[small_240p, small_480p]"]
    by (auto simp: example_within_limit example_quality example_renditions_differ)
  note huge = example_selections(1)
  note inst1 = selection_raises_or_is_unused
    [of "video_env [small_480p, small_hls]" "''https://x.test/watch''"
        "clip [small_480p, small_hls]" empty_world small_480p "[small_480p]" small_480p]
  note inst2 = selection_raises_or_is_unused
    [of "video_env [small_240p, small_480p]" "''https://x.test/watch''"
        "clip [small_240p, small_480p]" empty_world small_480p "[huge_720p, huge_1080p]"
        huge_720p]
  from inst1 have
    "select_format [small_480p, small_hls] = Inl TypeError \<and>
     extract_with_ytdlp (video_env [small_480p, small_hls]) ''https://x.test/watch''
       empty_world = (None, \<lparr>net_log = [EXTRACT_INFO ''https://x.test/watch''], files = []\<rparr>)"
    by (simp add: video_env_sel example_within_limit example_quality issue_def
        empty_world_def)
  moreover from inst2 small huge have
    "extract_with_ytdlp (video_env [huge_720p, huge_1080p]) ''https://x.test/watch''
       empty_world =
     extract_with_ytdlp (video_env [small_240p, small_480p]) ''https://x.test/watch''
       empty_world"
    by (simp add: video_env_sel)
  ultimately show ?thesis
    using small huge by (simp add: example_within_limit)
qed

text \<open>
  What the extractor gives in the second example: the one file that the engine has
  downloaded, whichever rendition the selection had picked.
\<close>

lemma example_download:
  "extract_with_ytdlp (video_env [small_240p, small_480p]) ''https://x.test/watch'' empty_world =
     (Some [\<lparr>mi_file_path = ''/tmp/dir/clip.mp4'', mi_filename = ''clip.mp4'', mi_size = 10,
             mi_type = VIDEO, mi_url = ''https://x.test/watch'', mi_content_type = None,
             mi_title = T_str ''clip''\<rparr>],
      \<lparr>net_log = [EXTRACT_INFO ''https://x.test/watch'', DOWNLOAD ''https://x.test/watch''],
       files = [(''/tmp/dir/clip.mp4'', ''0123456789'')]\<rparr>)"
proof -
  have sel: "select_format (info_formats (clip [small_240p, small_480p])) =
      Inr (Some small_480p)"
    using select_format_numbers [of "[small_240p, small_480p]"]
    by (auto simp: video_env_sel example_within_limit example_quality
        example_renditions_differ)
  have env: "mkdtemp (video_env [small_240p, small_480p]) 0 = Inr ''/tmp/dir''"
    "ydl_download (video_env [small_240p, small_480p]) ''https://x.test/watch'' =
       Inr [(''clip.mp4'', ''0123456789'')]"
    by (simp_all add: video_env_def example_env_def)
  have ext: "extension_of (video_env [small_240p, small_480p]) ''/tmp/dir/clip.mp4'' =
      Inr ''.mp4''"
    by (simp add: extension_of_def path_defs string_defs)
  have files: "downloaded_files (video_env [small_240p, small_480p]) ''https://x.test/watch''
      (clip [small_240p, small_480p]) ''/tmp/dir'' [(''clip.mp4'', ''0123456789'')] =
      Inr [\<lparr>mi_file_path = ''/tmp/dir/clip.mp4'', mi_filename = ''clip.mp4'', mi_size = 10,
            mi_type = VIDEO, mi_url = ''https://x.test/watch'', mi_content_type = None,
            mi_title = T_str ''clip''\<rparr>]"
    by (simp add: is_supported_media_def is_video_def ext format_defs clip_def Let_def)
  have "ytdlp_download (video_env [small_240p, small_480p]) ''https://x.test/watch''
      (clip [small_240p, small_480p]) (issue (EXTRACT_INFO ''https://x.test/watch'') empty_world) =
     (Inr (Some [\<lparr>mi_file_path = ''/tmp/dir/clip.mp4'', mi_filename = ''clip.mp4'',
             mi_size = 10, mi_type = VIDEO, mi_url = ''https://x.test/watch'',
             mi_content_type = None, mi_title = T_str ''clip''\<rparr>]),
      \<lparr>net_log = [EXTRACT_INFO ''https://x.test/watch'', DOWNLOAD ''https://x.test/watch''],
       files = [(''/tmp/dir/clip.mp4'', ''0123456789'')]\<rparr>)"
    by (simp add: ytdlp_download_def env issue_def empty_world_def Let_def files
        del: downloaded_files.simps)
  with extract_with_ytdlp_selected [OF video_env_sel(1) sel]
  show ?thesis
    by (simp add: extract_with_ytdlp_def)
qed
subsection \<open>The Delivery Tracker\<close>

text \<open>
  In the thread of the worker every call of \<open>create_task\<close> raises, so both loops leave
  the table as it is and log one error for each entry they would have acted on.
\<close>

lemma create_task_worker: "create_task worker_running_loop coro = Some RuntimeError"
  by (simp add: create_task_def worker_running_loop_def)

lemma warn_loop_worker:
  "warn_loop B t keys tbl ev =
     (tbl, ev @ map Error_sending_warning (filter (warning_due B t tbl) keys))"
  by (induction keys arbitrary: ev)
     (auto simp: warning_due_def create_task_worker Let_def split: option.splits)

lemma delete_loop_worker:
  "delete_loop B keys tbl ev = (tbl, ev @ map Error_scheduling_deletion keys)"
  by (induction keys arbitrary: ev) (auto simp: create_task_worker split: option.splits)

lemma sweep_worker:
  "sweep B t None tbl =
     (Inr (map Error_sending_warning (filter (warning_due B t tbl) (map fst tbl)) @
           map Error_scheduling_deletion (expired_keys B t tbl)), tbl)"
  by (simp add: sweep_def messages_to_delete_def warn_loop_worker delete_loop_worker)

lemma map_of_assign:
  "map_of (assign k v tbl) k' = (if k' = k then Some v else map_of tbl k')"
  by (induction tbl) auto

lemma map_of_track:
  "map_of tbl k = Some info \<Longrightarrow> \<exists>info'. map_of (track c m now f tbl) k = Some info'"
  by (simp add: track_def map_of_assign)

lemma sweep_table:
  "snd (sweep B t entering tbl) =
     (case entering of None \<Rightarrow> tbl | Some (n, c, m, now, f) \<Rightarrow> track c m now f tbl)"
  by (cases entering)
     (auto simp: sweep_def messages_to_delete_def warn_loop_worker delete_loop_worker Let_def)

lemma sweep_keeps:
  assumes "map_of tbl k \<noteq> None"
  shows "map_of (snd (sweep B t entering tbl)) k \<noteq> None"
  using assms by (cases entering) (auto simp: sweep_table map_of_track)

lemma sweep_schedules_nothing:
  assumes "sweep B t entering tbl = (Inr ev, tbl')"
  shows "\<forall>e \<in> set ev. \<not> scheduled e"
  using assms
  by (cases entering)
     (auto simp: sweep_def messages_to_delete_def warn_loop_worker delete_loop_worker Let_def
           split: if_splits)

lemma expired_keys_member:
  assumes "map_of tbl k = Some info" and "expired B t info"
  shows "k \<in> set (expired_keys B t tbl)"
proof -
  from assms(1) have "(k, info) \<in> set tbl" by (rule map_of_SomeD)
  with assms(2) have "(k, info) \<in> set (filter (\<lambda>(k, i). expired B t i) tbl)" by simp
  then have "fst (k, info) \<in> fst ` set (filter (\<lambda>(k, i). expired B t i) tbl)"
    by (rule imageI)
  then show ?thesis by (simp add: expired_keys_def)
qed

lemma worker_keeps:
  assumes "auto_delete_worker passes tbl = (ended, tbl', ev)"
  shows "(map_of tbl k \<noteq> None \<longrightarrow> map_of tbl' k \<noteq> None) \<and> (\<forall>e \<in> set ev. \<not> scheduled e)"
  using assms
proof (induction passes arbitrary: tbl ev ended tbl')
  case Nil
  then show ?case by simp
next
  case (Cons p passes)
  obtain t B entering where p: "p = (t, B, entering)" by (cases p) auto
  obtain r swept where s: "sweep B t entering tbl = (r, swept)" by (cases "sweep B t entering tbl")
  from sweep_keeps [of tbl k B t entering] s
  have kept: "map_of tbl k \<noteq> None \<longrightarrow> map_of swept k \<noteq> None" by simp
  show ?case
  proof (cases r)
    case (Inl e)
    with Cons.prems p s kept show ?thesis by auto
  next
    case (Inr ev1)
    obtain ended2 tbl2 ev2 where rest: "auto_delete_worker passes swept = (ended2, tbl2, ev2)"
      by (cases "auto_delete_worker passes swept") auto
    from Cons.prems p s Inr rest have eq: "tbl' = tbl2" "ev = ev1 @ ev2" by auto
    from sweep_schedules_nothing [of B t entering tbl ev1 swept] s Inr
    have "\<forall>e \<in> set ev1. \<not> scheduled e" by simp
    with Cons.IH [OF rest] kept eq show ?thesis by auto
  qed
qed

lemma worker_undisturbed:
  assumes "\<forall>p \<in> set passes. snd (snd p) = None"
  shows "fst (auto_delete_worker passes tbl) = None \<and>
         fst (snd (auto_delete_worker passes tbl)) = tbl"
  using assms
proof (induction passes)
  case Nil
  show ?case by simp
next
  case (Cons p passes)
  obtain t B where p: "p = (t, B, None)" using Cons.prems by (cases p) auto
  from Cons.IH Cons.prems show ?case
    by (auto simp: p sweep_worker split: prod.splits)
qed

text \<open>
  Claim C3 (the code departs from it). The claim has every tracked message warned at most
  once and removed from the table by the first pass that finds it expired. The worker
  runs in a thread of its own, where no event loop runs, so \<open>asyncio.create_task\<close>
  raises in it every time; the handlers of lines 63 and 77 log the exception, before the
  flag is set and before the entry is deleted. So, in every run of the worker, whatever
  the clock, the platform and the messages entered meanwhile: no entry ever leaves the
  table, and neither a warning nor a deletion is ever scheduled (no message is warned,
  none is deleted); when no message is entered during a first loop the worker never
  changes the table; and for an entry that the first pass finds expired, that pass logs
  the error of line 78 and keeps the entry. The only other thing a pass can do is end the
  thread: a message entered under a new key during the first loop raises \<open>RuntimeError\<close>
  out of the worker.
\<close>

theorem worker_never_removes:
  assumes "auto_delete_worker passes sent_messages = (ended, sent_messages', events)"
  shows "(\<forall>k. map_of sent_messages k \<noteq> None \<longrightarrow> map_of sent_messages' k \<noteq> None) \<and>
         (\<forall>e \<in> set events. \<not> scheduled e) \<and>
         ((\<forall>p \<in> set passes. snd (snd p) = None) \<longrightarrow>
            ended = None \<and> sent_messages' = sent_messages) \<and>
         (\<forall>current_time B rest k message_info.
            passes = (current_time, B, None) # rest \<and>
            map_of sent_messages k = Some message_info \<and>
            expired B current_time message_info \<longrightarrow>
              Error_scheduling_deletion k \<in> set events \<and>
              map_of sent_messages' k \<noteq> None)"
proof (intro conjI allI impI)
  fix k
  assume "map_of sent_messages k \<noteq> None"
  with worker_keeps [OF assms, of k] show "map_of sent_messages' k \<noteq> None" by simp
next
  from worker_keeps [OF assms] show "\<forall>e \<in> set events. \<not> scheduled e" by simp
next
  assume quiet: "\<forall>p \<in> set passes. snd (snd p) = None"
  from worker_undisturbed [OF quiet, of sent_messages] assms
  show "ended = None" by simp
  from worker_undisturbed [OF quiet, of sent_messages] assms
  show "sent_messages' = sent_messages" by simp
next
  fix current_time B rest k message_info
  assume a: "passes = (current_time, B, None) # rest \<and>
      map_of sent_messages k = Some message_info \<and> expired B current_time message_info"
  then have member: "k \<in> set (expired_keys B current_time sent_messages)"
    by (simp add: expired_keys_member)
  obtain ended2 tbl2 ev2 where
    rest: "auto_delete_worker rest sent_messages = (ended2, tbl2, ev2)"
    by (cases "auto_delete_worker rest sent_messages") auto
  from assms a rest
  have "events =
      (map Error_sending_warning
         (filter (warning_due B current_time sent_messages) (map fst sent_messages)) @
       map Error_scheduling_deletion (expired_keys B current_time sent_messages)) @ ev2"
    by (simp add: sweep_worker)
  with member show "Error_scheduling_deletion k \<in> set events" by simp
  from a worker_keeps [OF assms, of k] show "map_of sent_messages' k \<noteq> None" by simp
qed

text \<open>
  An example: at the time 4000 the first message of the table is inside the window of the
  warning and the second has expired; at the time 4600 both have expired. Both passes log
  errors only and both messages are still in the table after them.
\<close>

lemmas sweep_defs =
  warning_due_def expired_keys_def expired_def delete_threshold_def warn_threshold_def
  AUTO_DELETE_AFTER_HOURS_def example_table_def example_bot_def

lemma example_sweep:
  "sweep example_bot 4000 None example_table =
     (Inr [Error_sending_warning ''7_10'', Error_scheduling_deletion ''7_11''], example_table)"
  by (simp add: sweep_worker) (simp add: sweep_defs)

lemma example_second_sweep:
  "sweep example_bot 4600 None example_table =
     (Inr [Error_scheduling_deletion ''7_10'', Error_scheduling_deletion ''7_11''],
      example_table)"
  by (simp add: sweep_worker) (simp add: sweep_defs)

lemma example_expired:
  "map_of example_table ''7_11'' =
     Some \<lparr>tm_chat_id = 7, tm_message_id = 11, tm_sent_time = 300, tm_filename = ''c.png'',
           tm_warned = False\<rparr>"
  "expired example_bot 4000
     \<lparr>tm_chat_id = 7, tm_message_id = 11, tm_sent_time = 300, tm_filename = ''c.png'',
      tm_warned = False\<rparr>"
  by (simp_all add: sweep_defs)

theorem worker_never_removes_witness:
  "auto_delete_worker [(4000, example_bot, None), (4600, example_bot, None)] example_table =
     (None, example_table,
      [Error_sending_warning ''7_10'', Error_scheduling_deletion ''7_11'',
       Error_scheduling_deletion ''7_10'', Error_scheduling_deletion ''7_11'']) \<and>
   expired example_bot 4000
     \<lparr>tm_chat_id = 7, tm_message_id = 11, tm_sent_time = 300, tm_filename = ''c.png'',
      tm_warned = False\<rparr> \<and>
   map_of example_table ''7_11'' \<noteq> None"
proof -
  have run: "auto_delete_worker [(4000, example_bot, None), (4600, example_bot, None)]
      example_table =
     (None, example_table,
      [Error_sending_warning ''7_10'', Error_scheduling_deletion ''7_11'',
       Error_scheduling_deletion ''7_10'', Error_scheduling_deletion ''7_11''])"
    by (simp add: example_sweep example_second_sweep)
  from worker_never_removes [OF run] example_expired
  have "map_of example_table ''7_11'' \<noteq> None"
    by blast
  with run example_expired(2) show ?thesis by simp
qed

text \<open>
  The pass that ends the thread: a third message is entered under a new key while the
  first loop has read one of the two items. The worker raises, and no later pass runs.
\<close>

lemma example_race:
  "auto_delete_worker
     [(4000, example_bot, Some (1, 7, 12, 3999, ''d.gif'')), (4600, example_bot, None)]
     example_table =
     (Some RuntimeError,
      example_table @
        [(''7_12'', \<lparr>tm_chat_id = 7, tm_message_id = 12, tm_sent_time = 3999,
                     tm_filename = ''d.gif'', tm_warned = False\<rparr>)],
      [])"
  by (simp add: sweep_def messages_to_delete_def track_def key_of_def str_int_def
      str_nat.simps digit_char_def example_table_def Let_def)

end
